theory Spec2Isabelle
  imports Main
begin

section \<open>JavaScript values and the operations the uploader applies to them\<close>

text \<open>
  The upload responses are typed \<^verbatim>\<open>any[]\<close> in
  \<^verbatim>\<open>src/components/utility-components/file-uploader.tsx\<close>, so a response is an
  arbitrary JavaScript value. Property keys are array indices or names.
\<close>

datatype key = Idx nat | Name string

datatype jsval =
    JUndefined
  | JNull
  | JBool bool
  | JNum int
  | JStr string
  | JArr "jsval list"
  | JObj "(key \<times> jsval) list"

text \<open>
  A thrown value: an instance of \<^verbatim>\<open>Error\<close> with its message, or any other value
  (a promise rejected with an event object, for example).
\<close>

datatype thrown = ErrorObj string | NonError jsval

fun truthy :: "jsval \<Rightarrow> bool" where
  "truthy JUndefined = False"
| "truthy JNull = False"
| "truthy (JBool b) = b"
| "truthy (JNum n) = (n \<noteq> 0)"
| "truthy (JStr s) = (s \<noteq> [])"
| "truthy (JArr xs) = True"
| "truthy (JObj ps) = True"

fun isArray :: "jsval \<Rightarrow> bool" where
  "isArray (JArr xs) = True"
| "isArray v = False"

text \<open>
  Property read \<^verbatim>\<open>v[k]\<close> and \<^verbatim>\<open>v.length\<close>. Reading a property of
  \<^verbatim>\<open>undefined\<close> or \<^verbatim>\<open>null\<close> throws a TypeError; a missing property reads
  as \<^verbatim>\<open>undefined\<close>.
\<close>

fun js_get :: "jsval \<Rightarrow> key \<Rightarrow> thrown + jsval" where
  "js_get JUndefined k = Inl (ErrorObj ''Cannot read properties of undefined'')"
| "js_get JNull k = Inl (ErrorObj ''Cannot read properties of null'')"
| "js_get (JArr xs) (Idx i) = Inr (if i < length xs then xs ! i else JUndefined)"
| "js_get (JArr xs) (Name n) =
     Inr (if n = ''length'' then JNum (int (length xs)) else JUndefined)"
| "js_get (JStr s) (Idx i) = Inr (if i < length s then JStr [s ! i] else JUndefined)"
| "js_get (JStr s) (Name n) =
     Inr (if n = ''length'' then JNum (int (length s)) else JUndefined)"
| "js_get (JObj ps) k = Inr (case map_of ps k of None \<Rightarrow> JUndefined | Some v \<Rightarrow> v)"
| "js_get (JBool b) k = Inr JUndefined"
| "js_get (JNum n) k = Inr JUndefined"

text \<open>
  The comparison \<^verbatim>\<open>a > b\<close> on numbers. An \<^verbatim>\<open>undefined\<close> operand compares
  false; the uploader only compares the \<^verbatim>\<open>length\<close> of an array with a literal.
\<close>

fun js_gt :: "jsval \<Rightarrow> jsval \<Rightarrow> bool" where
  "js_gt (JNum a) (JNum b) = (b < a)"
| "js_gt a b = False"

text \<open>\<^verbatim>\<open>Array.prototype.find\<close> with a callback that may throw.\<close>

fun js_find :: "(jsval \<Rightarrow> thrown + bool) \<Rightarrow> jsval list \<Rightarrow> thrown + jsval" where
  "js_find p [] = Inr JUndefined"
| "js_find p (x # xs) =
     (case p x of
        Inl e \<Rightarrow> Inl e
      | Inr b \<Rightarrow> if b then Inr x else js_find p xs)"

text \<open>\<^verbatim>\<open>Array.prototype.map\<close> with a callback that may throw.\<close>

fun js_map :: "('a \<Rightarrow> thrown + 'b) \<Rightarrow> 'a list \<Rightarrow> thrown + 'b list" where
  "js_map f [] = Inr []"
| "js_map f (x # xs) =
     (case f x of
        Inl e \<Rightarrow> Inl e
      | Inr y \<Rightarrow> (case js_map f xs of Inl e \<Rightarrow> Inl e | Inr ys \<Rightarrow> Inr (y # ys)))"

section \<open>The response resolver (lines 161 to 172)\<close>

text \<open>The callback of \<^verbatim>\<open>response.find\<close>:
  \<^verbatim>\<open>(tag) => Array.isArray(tag) && tag[0] === "url"\<close>.\<close>

definition is_url_tag :: "jsval \<Rightarrow> thrown + bool" where
  "is_url_tag tag =
     (if isArray tag
      then (case js_get tag (Idx 0) of
              Inl e \<Rightarrow> Inl e
            | Inr v \<Rightarrow> Inr (v = JStr ''url''))
      else Inr False)"

text \<open>
  The callback of \<^verbatim>\<open>.map\<close>: find the url tag, return its second element when the tag
  has more than one element, \<^verbatim>\<open>null\<close> otherwise. Calling \<^verbatim>\<open>find\<close> on a value
  that is not an array throws.
\<close>

definition url_of_response :: "jsval \<Rightarrow> thrown + jsval" where
  "url_of_response response =
     (case response of
        JArr tags \<Rightarrow>
          (case js_find is_url_tag tags of
             Inl e \<Rightarrow> Inl e
           | Inr urlTag \<Rightarrow>
               if truthy urlTag
               then (case js_get urlTag (Name ''length'') of
                       Inl e \<Rightarrow> Inl e
                     | Inr n \<Rightarrow> if js_gt n (JNum 1) then js_get urlTag (Idx 1) else Inr JNull)
               else Inr JNull)
      | _ \<Rightarrow> Inl (ErrorObj ''response.find is not a function''))"

text \<open>
  \<^verbatim>\<open>responses.filter(r => r && Array.isArray(r)).map(...).filter(url => url !== null)\<close>
\<close>

definition imageUrls :: "jsval list \<Rightarrow> thrown + jsval list" where
  "imageUrls responses =
     (case js_map url_of_response
             (filter (\<lambda>response. truthy response \<and> isArray response) responses) of
        Inl e \<Rightarrow> Inl e
      | Inr urls \<Rightarrow> Inr (filter (\<lambda>url. url \<noteq> JNull) urls))"

text \<open>
  The resolver in the words of the specification: the second element of the first tag
  whose first element is the string \<^verbatim>\<open>url\<close> and whose length is at least 2; absence
  when the response is not an array or has no such tag.
\<close>

fun spec_tag_ok :: "jsval \<Rightarrow> bool" where
  "spec_tag_ok (JArr (k # v # rest)) = (k = JStr ''url'')"
| "spec_tag_ok t = False"

fun spec_resolver :: "jsval \<Rightarrow> jsval option" where
  "spec_resolver (JArr tags) =
     (case find spec_tag_ok tags of
        Some (JArr (k # v # rest)) \<Rightarrow> Some v
      | _ \<Rightarrow> None)"
| "spec_resolver r = None"

text \<open>
  The resolver as the code has it: the first array tag whose first element is
  \<^verbatim>\<open>url\<close> decides alone; its second element is the result when the tag has one and
  it is not \<^verbatim>\<open>null\<close>.
\<close>

fun first_is_url :: "jsval \<Rightarrow> bool" where
  "first_is_url (JArr (k # rest)) = (k = JStr ''url'')"
| "first_is_url t = False"

fun code_resolver :: "jsval \<Rightarrow> jsval option" where
  "code_resolver (JArr tags) =
     (case find first_is_url tags of
        Some (JArr (k # v # rest)) \<Rightarrow> (if v = JNull then None else Some v)
      | _ \<Rightarrow> None)"
| "code_resolver r = None"

section \<open>Files and the policy constants (lines 12 to 14)\<close>

record File =
  fname :: string
  ftype :: string
  fsize :: nat
  fbytes :: string
  lastModified :: nat

definition MAX_FILE_SIZE :: nat where
  "MAX_FILE_SIZE = 5 * 1024 * 1024"

definition ALLOWED_TYPES :: "string list" where
  "ALLOWED_TYPES = [''image/jpeg'', ''image/png'', ''image/webp'']"

text \<open>\<^verbatim>\<open>s.startsWith(p)\<close> and \<^verbatim>\<open>xs.includes(x)\<close>.\<close>

definition startsWith :: "string \<Rightarrow> string \<Rightarrow> bool" where
  "startsWith s p = (take (length p) s = p)"

definition js_includes :: "'a list \<Rightarrow> 'a \<Rightarrow> bool" where
  "js_includes xs x = list_ex (\<lambda>y. y = x) xs"

text \<open>
  The platform's \<^verbatim>\<open>new File(bits, name, {type, lastModified})\<close>: a type with a
  character outside U+0020 to U+007E becomes the empty string, any other type is
  converted to ASCII lower case. The size is the number of bytes.
\<close>

definition ascii_lower :: "char \<Rightarrow> char" where
  "ascii_lower c =
     (let n = (of_char c :: nat)
      in if 65 \<le> n \<and> n \<le> 90 then char_of (n + 32) else c)"

definition normalize_type :: "string \<Rightarrow> string" where
  "normalize_type t =
     (if list_all (\<lambda>c. 32 \<le> (of_char c :: nat) \<and> (of_char c :: nat) \<le> 126) t
      then map ascii_lower t else [])"

definition new_File :: "string \<Rightarrow> string \<Rightarrow> string \<Rightarrow> nat \<Rightarrow> File" where
  "new_File bits name type lm =
     \<lparr>fname = name, ftype = normalize_type type, fsize = length bits, fbytes = bits,
      lastModified = lm\<rparr>"

section \<open>The sanitizer \<^verbatim>\<open>stripImageMetadata\<close> (lines 58 to 96)\<close>

text \<open>
  What the browser does for the sanitizer: loading the image calls \<^verbatim>\<open>onload\<close>
  with an image of some width and height, or \<^verbatim>\<open>onerror\<close>; a canvas of that
  width and height has a 2d context or none; \<^verbatim>\<open>canvas.toBlob(callback, type)\<close>
  hands the callback the re-encoded bytes or \<^verbatim>\<open>null\<close>; \<^verbatim>\<open>Date.now()\<close>.
\<close>

record browser =
  image_load :: "File \<Rightarrow> (nat \<times> nat) option"
  getContext :: "nat \<times> nat \<Rightarrow> bool"
  toBlob :: "File \<Rightarrow> string \<Rightarrow> string option"
  Date_now :: nat

definition stripImageMetadata :: "browser \<Rightarrow> File \<Rightarrow> thrown + File" where
  "stripImageMetadata w imageFile =
     (case image_load w imageFile of
        None \<Rightarrow> Inl (ErrorObj ''Failed to load image'')
      | Some img \<Rightarrow>
          if \<not> getContext w img then Inl (ErrorObj ''Failed to get canvas context'')
          else (case toBlob w imageFile (ftype imageFile) of
                  None \<Rightarrow> Inl (ErrorObj ''Failed to create blob'')
                | Some blob \<Rightarrow>
                    Inr (new_File blob (fname imageFile) (ftype imageFile) (Date_now w))))"

section \<open>The component state and its setters (lines 29 to 39)\<close>

type_synonym preview = "string \<times> string \<times> nat"

text \<open>
  The state hooks of the component, and beside them the history of what the run did:
  every argument of \<^verbatim>\<open>setProgress\<close> and of \<^verbatim>\<open>setFailureText\<close> in call order,
  the files handed to the sanitizer, the calls of the upload collaborator, the arguments
  of the caller's \<^verbatim>\<open>imgCallbackOnUpload\<close>, the delays of the timers set, and the
  percentages that callbacks of items still pending will set when they settle.
\<close>

record state =
  progress :: "nat option"
  failureText :: string
  showFailureModal :: bool
  previews :: "preview list"
  loading :: bool
  progress_log :: "nat option list"
  failure_log :: "string list"
  strip_calls :: "File list"
  upload_calls :: "(File \<times> string \<times> string list) list"
  callback_log :: "jsval list"
  timers :: "nat list"
  pending :: "nat list"

definition init_state :: state where
  "init_state =
     \<lparr>progress = None, failureText = [], showFailureModal = False, previews = [],
      loading = False, progress_log = [], failure_log = [], strip_calls = [],
      upload_calls = [], callback_log = [], timers = [], pending = []\<rparr>"

definition setProgress :: "nat option \<Rightarrow> state \<Rightarrow> state" where
  "setProgress p s = s\<lparr>progress := p, progress_log := progress_log s @ [p]\<rparr>"

definition setFailureText :: "string \<Rightarrow> state \<Rightarrow> state" where
  "setFailureText t s = s\<lparr>failureText := t, failure_log := failure_log s @ [t]\<rparr>"

definition setShowFailureModal :: "bool \<Rightarrow> state \<Rightarrow> state" where
  "setShowFailureModal b s = s\<lparr>showFailureModal := b\<rparr>"

definition setPreviews :: "preview list \<Rightarrow> state \<Rightarrow> state" where
  "setPreviews ps s = s\<lparr>previews := ps\<rparr>"

definition setLoading :: "bool \<Rightarrow> state \<Rightarrow> state" where
  "setLoading b s = s\<lparr>loading := b\<rparr>"

definition imgCallbackOnUpload :: "jsval \<Rightarrow> state \<Rightarrow> state" where
  "imgCallbackOnUpload imgUrl s = s\<lparr>callback_log := callback_log s @ [imgUrl]\<rparr>"

definition setTimeout :: "nat \<Rightarrow> state \<Rightarrow> state" where
  "setTimeout ms s = s\<lparr>timers := timers s @ [ms]\<rparr>"

text \<open>
  The items still pending when \<^verbatim>\<open>uploadImages\<close> has returned settle afterwards,
  and each callback then sets its percentage.
\<close>

definition settle_pending :: "state \<Rightarrow> state" where
  "settle_pending s = fold (\<lambda>p. setProgress (Some p)) (pending s) (s\<lparr>pending := []\<rparr>)"

section \<open>What surrounds a run\<close>

text \<open>
  The signer context, the configured servers (\<^verbatim>\<open>undefined\<close> when local storage has
  none), the outcome of \<^verbatim>\<open>FileReader.readAsDataURL\<close> for a file, the browser, the
  settlement of the upload collaborator's call for the item at an index (the collaborator
  is outside this component), and the order in which the concurrent items of each stage
  settle: a permutation of the indices \<open>0..<n\<close> of the batch. When an item
  rejects, the code that awaits the join resumes a few turns of the job queue later: the
  lag of a stage is the number of settlements, next in completion order, that had
  happened by then and run their callbacks before the awaiting code goes on; the items
  after them are still pending. The callbacks of the previews set no state, so that
  stage needs no lag.
\<close>

record env =
  isLoggedIn :: bool
  signer :: string
  blossomServers :: "string list option"
  getBase64 :: "File \<Rightarrow> thrown + string"
  window :: browser
  blossomUploadImages :: "nat \<Rightarrow> File \<Rightarrow> string \<Rightarrow> string list \<Rightarrow> thrown + jsval"
  preview_order :: "nat list"
  strip_order :: "nat list"
  upload_order :: "nat list"
  strip_lag :: nat
  upload_lag :: nat

section \<open>Joining concurrent items: \<^verbatim>\<open>Promise.all\<close>\<close>

text \<open>
  The rest of an item's callback after its \<^verbatim>\<open>await\<close>: \<open>pct idx\<close> is the
  percentage it hands to \<^verbatim>\<open>setProgress\<close>, or \<open>None\<close> when it sets nothing. It
  runs when the item fulfils, or is put off when the item is still pending.
\<close>

definition run_callback :: "(nat \<Rightarrow> nat option) \<Rightarrow> nat \<Rightarrow> state \<Rightarrow> state" where
  "run_callback pct idx s =
     (case pct idx of None \<Rightarrow> s | Some p \<Rightarrow> setProgress (Some p) s)"

definition defer_callback :: "(nat \<Rightarrow> nat option) \<Rightarrow> nat \<Rightarrow> state \<Rightarrow> state" where
  "defer_callback pct idx s =
     (case pct idx of None \<Rightarrow> s | Some p \<Rightarrow> s\<lparr>pending := pending s @ [p]\<rparr>)"

text \<open>The items among the given indices that fulfil.\<close>

definition fulfilling :: "(thrown + 'a) list \<Rightarrow> nat list \<Rightarrow> nat list" where
  "fulfilling outs ids =
     filter (\<lambda>idx. idx < length outs \<and>
                   (case outs ! idx of Inl e \<Rightarrow> False | Inr v \<Rightarrow> True)) ids"

text \<open>
  The items settle one at a time in completion order. An item that fulfils runs the rest
  of its callback. The first item that rejects rejects the join: of the settlements that
  follow, the first \<open>lag\<close> run their callbacks before the awaiting code resumes, and
  the callbacks of the others are put off until after the run. An item that rejects
  later changes nothing. An index outside the batch names no item and is skipped.
\<close>

fun settle_all ::
  "(nat \<Rightarrow> nat option) \<Rightarrow> nat \<Rightarrow> (thrown + 'a) list \<Rightarrow> nat list \<Rightarrow> state \<Rightarrow>
   thrown option \<times> state"
where
  "settle_all pct lag outs [] s = (None, s)"
| "settle_all pct lag outs (idx # order) s =
     (if idx < length outs
      then (case outs ! idx of
              Inl e \<Rightarrow>
                (Some e,
                 fold (defer_callback pct) (fulfilling outs (drop lag order))
                   (fold (run_callback pct) (fulfilling outs (take lag order)) s))
            | Inr v \<Rightarrow> settle_all pct lag outs order (run_callback pct idx s))
      else settle_all pct lag outs order s)"

fun fulfilled :: "(thrown + 'a) list \<Rightarrow> 'a list" where
  "fulfilled [] = []"
| "fulfilled (Inr v # outs) = v # fulfilled outs"
| "fulfilled (Inl e # outs) = fulfilled outs"

definition promise_all ::
  "(nat \<Rightarrow> nat option) \<Rightarrow> nat \<Rightarrow> (thrown + 'a) list \<Rightarrow> nat list \<Rightarrow> state \<Rightarrow>
   (thrown + 'a list) \<times> state"
where
  "promise_all pct lag outs order s =
     (case settle_all pct lag outs order s of
        (Some e, s') \<Rightarrow> (Inl e, s')
      | (None, s') \<Rightarrow> (Inr (fulfilled outs), s'))"

text \<open>
  \<^verbatim>\<open>xs.map(async (x, idx) => ...)\<close>: the callbacks are started one after the other,
  and each runs up to its \<^verbatim>\<open>await\<close>, that is, it makes its call. The outcomes of the
  calls are what the join waits on.
\<close>

fun start_all ::
  "(nat \<Rightarrow> 'a \<Rightarrow> state \<Rightarrow> 'b \<times> state) \<Rightarrow> nat \<Rightarrow> 'a list \<Rightarrow> state \<Rightarrow> 'b list \<times> state"
where
  "start_all call idx [] s = ([], s)"
| "start_all call idx (x # xs) s =
     (case call idx x s of
        (out, s1) \<Rightarrow>
          (case start_all call (Suc idx) xs s1 of
             (outs, s2) \<Rightarrow> (out # outs, s2)))"

text \<open>The first rejection in completion order, if any item rejects.\<close>

fun first_rejection :: "(thrown + 'a) list \<Rightarrow> nat list \<Rightarrow> thrown option" where
  "first_rejection outs [] = None"
| "first_rejection outs (idx # order) =
     (if idx < length outs
      then (case outs ! idx of
              Inl e \<Rightarrow> Some e
            | Inr v \<Rightarrow> first_rejection outs order)
      else first_rejection outs order)"

text \<open>Sequencing of steps that may throw: a thrown value skips the rest.\<close>

definition andThen ::
  "(state \<Rightarrow> (thrown + 'a) \<times> state) \<Rightarrow> ('a \<Rightarrow> state \<Rightarrow> (thrown + 'b) \<times> state) \<Rightarrow>
   state \<Rightarrow> (thrown + 'b) \<times> state"
where
  "andThen m f s = (case m s of (Inl e, s') \<Rightarrow> (Inl e, s') | (Inr x, s') \<Rightarrow> f x s')"

section \<open>The upload pipeline \<^verbatim>\<open>uploadImages\<close> (lines 99 to 197)\<close>

text \<open>Lines 103 to 121: the type check, then the size check.\<close>

definition validate :: "File list \<Rightarrow> thrown + unit" where
  "validate imageFiles =
     (if list_ex (\<lambda>imgFile. \<not> startsWith (ftype imgFile) ''image/'' \<or>
                           \<not> js_includes ALLOWED_TYPES (ftype imgFile)) imageFiles
      then Inl (ErrorObj ''Only JPEG, PNG, or WebP images are supported!'')
      else if list_ex (\<lambda>imgFile. MAX_FILE_SIZE < fsize imgFile) imageFiles
      then Inl (ErrorObj ''Each image must be smaller than 5 MB'')
      else Inr ())"

text \<open>
  \<^verbatim>\<open>Math.round((k / n) * m)\<close> on IEEE 754 doubles. A positive double is a
  mantissa and a binary exponent, \<open>(m, e)\<close> for \<open>m * 2^e\<close>. A positive
  rational \<open>N / D\<close> is rounded to the nearest double, a tie to the even mantissa, with
  the mantissa scaled into \<open>2^52 \<le> m \<le> 2^53\<close>. The quotient and the product are each
  rounded once; \<^verbatim>\<open>Math.round\<close> takes the double to the nearest integer, a half
  upwards. An array has fewer than \<open>2^32\<close> elements, so \<open>k\<close> and \<open>n\<close> are exact
  doubles and the values stay between \<open>2^-32\<close> and 70, far inside the exponent range.
  A callback runs for an item of the batch: \<open>1 \<le> k \<le> n\<close>.
\<close>

fun bitlen :: "nat \<Rightarrow> nat" where
  "bitlen n = (if n = 0 then 0 else Suc (bitlen (n div 2)))"

declare bitlen.simps [simp del]

definition round_half_even :: "nat \<Rightarrow> nat \<Rightarrow> nat" where
  "round_half_even N D =
     (let q = N div D; r = N mod D
      in if 2 * r < D then q
         else if D < 2 * r then q + 1
         else if even q then q else q + 1)"

text \<open>The integer \<open>L\<close> with \<open>2^L \<le> N / D < 2^(L + 1)\<close>.\<close>

definition floor_log2 :: "nat \<Rightarrow> nat \<Rightarrow> int" where
  "floor_log2 N D =
     (let L = int (bitlen N) - int (bitlen D)
      in if (if 0 \<le> L then D * 2 ^ nat L \<le> N else D \<le> N * 2 ^ nat (- L))
         then L else L - 1)"

definition to_double :: "nat \<Rightarrow> nat \<Rightarrow> nat \<times> int" where
  "to_double N D =
     (if N = 0 then (0, 0)
      else (let e = floor_log2 N D - 52
            in if e \<le> 0 then (round_half_even (N * 2 ^ nat (- e)) D, e)
               else (round_half_even N (D * 2 ^ nat e), e)))"

definition fl_div :: "nat \<Rightarrow> nat \<Rightarrow> nat \<times> int" where
  "fl_div a b = to_double a b"

definition fl_mul :: "nat \<times> int \<Rightarrow> nat \<Rightarrow> nat \<times> int" where
  "fl_mul x c =
     (case x of (m, e) \<Rightarrow>
        if 0 \<le> e then to_double (m * c * 2 ^ nat e) 1
        else to_double (m * c) (2 ^ nat (- e)))"

definition Math_round :: "nat \<times> int \<Rightarrow> nat" where
  "Math_round x =
     (case x of (m, e) \<Rightarrow>
        if 0 \<le> e then m * 2 ^ nat e
        else (2 * m + 2 ^ nat (- e)) div (2 * 2 ^ nat (- e)))"

definition round_ratio :: "nat \<Rightarrow> nat \<Rightarrow> nat \<Rightarrow> nat" where
  "round_ratio k n m = Math_round (fl_mul (fl_div k n) m)"

text \<open>Lines 125 to 132: the previews.\<close>

definition make_preview :: "env \<Rightarrow> File \<Rightarrow> thrown + preview" where
  "make_preview env file =
     (case getBase64 env file of
        Inl e \<Rightarrow> Inl e
      | Inr base64 \<Rightarrow> Inr (base64, fname file, fsize file))"

definition preview_outcomes :: "env \<Rightarrow> File list \<Rightarrow> (thrown + preview) list" where
  "preview_outcomes env imageFiles = map (make_preview env) imageFiles"

definition stage_previews :: "env \<Rightarrow> File list \<Rightarrow> state \<Rightarrow> (thrown + preview list) \<times> state" where
  "stage_previews env imageFiles s =
     promise_all (\<lambda>idx. None) 0 (preview_outcomes env imageFiles) (preview_order env) s"

text \<open>
  Lines 134 to 141: every file is handed to the sanitizer when the array is mapped (the
  call is recorded as it is made); each item sets the progress from its own index when
  it fulfils.
\<close>

definition call_stripImageMetadata :: "env \<Rightarrow> nat \<Rightarrow> File \<Rightarrow> state \<Rightarrow> (thrown + File) \<times> state" where
  "call_stripImageMetadata env idx imageFile s =
     (stripImageMetadata (window env) imageFile,
      s\<lparr>strip_calls := strip_calls s @ [imageFile]\<rparr>)"

definition strip_outcomes :: "env \<Rightarrow> File list \<Rightarrow> (thrown + File) list" where
  "strip_outcomes env imageFiles =
     fst (start_all (call_stripImageMetadata env) 0 imageFiles init_state)"

definition stage_strip :: "env \<Rightarrow> File list \<Rightarrow> state \<Rightarrow> (thrown + File list) \<times> state" where
  "stage_strip env imageFiles s =
     (case start_all (call_stripImageMetadata env) 0 imageFiles s of
        (outs, s1) \<Rightarrow>
          promise_all
            (\<lambda>idx. Some (round_ratio (idx + 1) (length imageFiles) 30))
            (strip_lag env) outs (strip_order env) s1)"

text \<open>Lines 151 to 153: the servers handed to the upload collaborator.\<close>

definition endpoints :: "env \<Rightarrow> string list" where
  "endpoints env =
     (case blossomServers env of
        None \<Rightarrow> [''https://cdn.nostrcheck.me'']
      | Some servers \<Rightarrow>
          if 0 < length servers then servers else [''https://cdn.nostrcheck.me''])"

text \<open>
  Lines 144 to 159: the uploads, when logged in. A call of the collaborator is recorded
  with its arguments as it is made, and its outcome is what the item awaits.
\<close>

definition call_blossomUploadImages ::
  "env \<Rightarrow> nat \<Rightarrow> File \<Rightarrow> string \<Rightarrow> string list \<Rightarrow> state \<Rightarrow> (thrown + jsval) \<times> state"
where
  "call_blossomUploadImages env idx imageFile sg servers s =
     (blossomUploadImages env idx imageFile sg servers,
      s\<lparr>upload_calls := upload_calls s @ [(imageFile, sg, servers)]\<rparr>)"

definition upload_item :: "env \<Rightarrow> nat \<Rightarrow> File \<Rightarrow> state \<Rightarrow> (thrown + jsval) \<times> state" where
  "upload_item env idx imageFile =
     call_blossomUploadImages env idx imageFile (signer env) (endpoints env)"

definition upload_outcomes :: "env \<Rightarrow> File list \<Rightarrow> (thrown + jsval) list" where
  "upload_outcomes env strippedImageFiles =
     fst (start_all (upload_item env) 0 strippedImageFiles init_state)"

definition stage_upload :: "env \<Rightarrow> File list \<Rightarrow> state \<Rightarrow> (thrown + jsval list) \<times> state" where
  "stage_upload env strippedImageFiles s =
     (if isLoggedIn env
      then (case start_all (upload_item env) 0 strippedImageFiles s of
              (outs, s1) \<Rightarrow>
                promise_all
                  (\<lambda>idx. Some (30 + round_ratio (idx + 1) (length strippedImageFiles) 70))
                  (upload_lag env) outs (upload_order env) s1)
      else (Inr [], s))"

text \<open>
  The servers of a call in the words of the specification: the one built-in default
  endpoint when the configured list is absent or empty, the configured list otherwise.
\<close>

definition spec_endpoints :: "string list option \<Rightarrow> string list" where
  "spec_endpoints configured =
     (case configured of
        None \<Rightarrow> [''https://cdn.nostrcheck.me'']
      | Some [] \<Rightarrow> [''https://cdn.nostrcheck.me'']
      | Some (server # servers) \<Rightarrow> server # servers)"

text \<open>Lines 161 to 186: resolve the urls, set the timer, and return or report.\<close>

definition no_url_text :: string where
  "no_url_text =
     ''Image upload failed to yield a URL! Change your Blossom media server in settings or try again.''"

definition finalize :: "jsval list \<Rightarrow> state \<Rightarrow> (thrown + jsval list) \<times> state" where
  "finalize responses s =
     (case imageUrls responses of
        Inl e \<Rightarrow> (Inl e, s)
      | Inr urls \<Rightarrow>
          (let s' = setTimeout 500 s
           in if 0 < length urls then (Inr urls, s')
              else (Inr [], setShowFailureModal True (setFailureText no_url_text s'))))"

text \<open>The stages up to the raw responses, and the whole \<^verbatim>\<open>try\<close> block.\<close>

definition collect_responses :: "env \<Rightarrow> File list \<Rightarrow> state \<Rightarrow> (thrown + jsval list) \<times> state" where
  "collect_responses env imageFiles =
     andThen (\<lambda>s. (validate imageFiles, s)) (\<lambda>_.
     andThen (\<lambda>s. (Inr (), setProgress (Some 0) s)) (\<lambda>_.
     andThen (stage_previews env imageFiles) (\<lambda>previewsList.
     andThen (\<lambda>s. (Inr (), setPreviews previewsList s)) (\<lambda>_.
     andThen (stage_strip env imageFiles) (\<lambda>strippedImageFiles.
     stage_upload env strippedImageFiles)))))"

definition try_block :: "env \<Rightarrow> File list \<Rightarrow> state \<Rightarrow> (thrown + jsval list) \<times> state" where
  "try_block env imageFiles = andThen (collect_responses env imageFiles) finalize"

text \<open>Lines 187 to 196: the \<^verbatim>\<open>catch\<close> block.\<close>

definition fallback_text :: string where
  "fallback_text = ''Failed to upload image! Change your Blossom media server in settings.''"

fun message_of :: "thrown \<Rightarrow> string" where
  "message_of (ErrorObj m) = m"
| "message_of (NonError v) = fallback_text"

definition catch_block :: "thrown \<Rightarrow> state \<Rightarrow> jsval list \<times> state" where
  "catch_block e s =
     ([], setShowFailureModal True (setFailureText (message_of e) (setProgress None s)))"

definition uploadImages :: "env \<Rightarrow> File list \<Rightarrow> state \<Rightarrow> jsval list \<times> state" where
  "uploadImages env files s =
     (case try_block env files s of
        (Inr urls, s') \<Rightarrow> (urls, s')
      | (Inl e, s') \<Rightarrow> catch_block e s')"

section \<open>The handlers around the pipeline\<close>

text \<open>Lines 204 to 217: \<^verbatim>\<open>handleChange\<close>; the files of the input may be \<^verbatim>\<open>null\<close>.\<close>

definition handleChange :: "env \<Rightarrow> File list option \<Rightarrow> state \<Rightarrow> state" where
  "handleChange env files s =
     (let s1 = setLoading True s;
          s2 = (case files of
                  None \<Rightarrow> s1
                | Some fs \<Rightarrow>
                    (case uploadImages env fs s1 of
                       (uploadedImages, s') \<Rightarrow>
                         fold imgCallbackOnUpload
                           (filter (\<lambda>imgUrl. imgUrl \<noteq> JNull) uploadedImages) s'))
      in setLoading False s2)"

text \<open>Lines 254 to 263: \<^verbatim>\<open>removePreview\<close> and \<^verbatim>\<open>clearAll\<close>.\<close>

definition removePreview :: "nat \<Rightarrow> state \<Rightarrow> state" where
  "removePreview index s =
     imgCallbackOnUpload (JStr [])
       (s\<lparr>previews := map snd (filter (\<lambda>(idx, p). idx \<noteq> index) (enumerate 0 (previews s)))\<rparr>)"

definition clearAll :: "state \<Rightarrow> state" where
  "clearAll s = imgCallbackOnUpload (JStr []) (setPreviews [] s)"

section \<open>Example runs\<close>

text \<open>
  A JPEG of 2048 bytes, a browser that decodes and re-encodes every image, a response
  that carries a url tag, and surroundings in which the caller is logged in, no server is
  configured and every upload answers with the url of the file; the completion orders
  of the sanitize stage and of the upload stage are left open, and an item that rejects
  finds its siblings still pending.
\<close>

definition photo :: "string \<Rightarrow> File" where
  "photo n =
     \<lparr>fname = n, ftype = ''image/jpeg'', fsize = 2048, fbytes = ''JFIF'', lastModified = 0\<rparr>"

definition decoding_browser :: browser where
  "decoding_browser =
     \<lparr>image_load = (\<lambda>f. Some (4, 3)), getContext = (\<lambda>d. True),
      toBlob = (\<lambda>f t. Some (fbytes f)), Date_now = 7\<rparr>"

definition url_response :: "string \<Rightarrow> jsval" where
  "url_response u = JArr [JArr [JStr ''url'', JStr u], JArr [JStr ''size'', JStr ''100'']]"

definition serving_env :: "nat list \<Rightarrow> nat list \<Rightarrow> env" where
  "serving_env so uo =
     \<lparr>isLoggedIn = True, signer = ''npub'', blossomServers = None,
      getBase64 = (\<lambda>f. Inr ''data:image/jpeg;base64,''),
      window = decoding_browser,
      blossomUploadImages = (\<lambda>idx f sg eps. Inr (url_response (''https://x/'' @ fname f))),
      preview_order = so, strip_order = so, upload_order = uo,
      strip_lag = 0, upload_lag = 0\<rparr>"

text \<open>
  The same surroundings with a browser that decodes no image, with one that fails on
  the first file only, with a collaborator whose first call rejects (its sibling still
  pending, or settled in the same turn), with one that answers with the servers it was
  handed, with one that
  answers every call with an empty url, with one whose answers carry no url tag, and with
  a caller that is not logged in.
\<close>

definition first_upload_fails_env :: env where
  "first_upload_fails_env =
     (serving_env [0, 1] [0, 1])
       \<lparr>blossomUploadImages :=
          (\<lambda>idx f sg eps.
             if idx = 0 then Inl (ErrorObj ''Upload failed'')
             else Inr (url_response (''https://x/'' @ fname f)))\<rparr>"

definition empty_url_env :: env where
  "empty_url_env =
     (serving_env [0] [0])
       \<lparr>blossomUploadImages := (\<lambda>idx f sg eps. Inr (JArr [JArr [JStr ''url'', JStr []]]))\<rparr>"

definition undecodable_env :: env where
  "undecodable_env =
     (serving_env [0, 1] [0, 1])\<lparr>window := decoding_browser\<lparr>image_load := (\<lambda>f. None)\<rparr>\<rparr>"

definition first_decode_fails_env :: env where
  "first_decode_fails_env =
     (serving_env [0, 1] [0, 1])
       \<lparr>window := decoding_browser
          \<lparr>image_load := (\<lambda>f. if fname f = ''a.jpg'' then None else Some (4, 3))\<rparr>\<rparr>"

definition settled_together_env :: env where
  "settled_together_env = first_upload_fails_env\<lparr>upload_lag := 1\<rparr>"

definition echo_env :: "string list option \<Rightarrow> env" where
  "echo_env configured =
     (serving_env [0] [0])
       \<lparr>blossomServers := configured,
        blossomUploadImages :=
          (\<lambda>idx f sg eps. Inr (url_response (concat (map (\<lambda>e. e @ ''|'') eps) @ fname f)))\<rparr>"

definition no_url_env :: env where
  "no_url_env =
     (serving_env [0] [0])
       \<lparr>blossomUploadImages := (\<lambda>idx f sg eps. Inr (JArr [JArr [JStr ''size'', JStr ''100'']]))\<rparr>"

definition logged_out_env :: env where
  "logged_out_env = (serving_env [0] [0])\<lparr>isLoggedIn := False\<rparr>"

section \<open>Properties of the resolver\<close>

lemma is_url_tag_total: "is_url_tag tag = Inr (first_is_url tag)"
  by (cases tag rule: first_is_url.cases) (simp_all add: is_url_tag_def)

lemma js_find_url_tag:
  "js_find is_url_tag tags =
     Inr (case find first_is_url tags of None \<Rightarrow> JUndefined | Some t \<Rightarrow> t)"
  by (induction tags) (simp_all add: is_url_tag_total)

lemma find_first_is_url_shape:
  "find first_is_url tags = Some t \<Longrightarrow> \<exists>k rest. t = JArr (k # rest)"
  by (auto simp: find_Some_iff elim: first_is_url.elims)

lemma url_of_response_array:
  "url_of_response (JArr tags) =
     Inr (case code_resolver (JArr tags) of None \<Rightarrow> JNull | Some v \<Rightarrow> v)"
proof (cases "find first_is_url tags")
  case None
  then show ?thesis
    by (simp add: url_of_response_def js_find_url_tag)
next
  case (Some t)
  then obtain k rest where t: "t = JArr (k # rest)"
    using find_first_is_url_shape by blast
  show ?thesis
  proof (cases rest)
    case Nil
    with Some t show ?thesis
      by (simp add: url_of_response_def js_find_url_tag)
  next
    case (Cons v rest')
    with Some t show ?thesis
      by (simp add: url_of_response_def js_find_url_tag)
  qed
qed

lemma code_resolver_not_null: "code_resolver r \<noteq> Some JNull"
  by (cases r) (auto split: option.splits jsval.splits list.splits)

lemma js_map_total:
  "(\<And>x. x \<in> set xs \<Longrightarrow> f x = Inr (g x)) \<Longrightarrow> js_map f xs = Inr (map g xs)"
  by (induction xs) simp_all

lemma url_of_response_filtered:
  "truthy r \<and> isArray r \<Longrightarrow>
   url_of_response r = Inr (case code_resolver r of None \<Rightarrow> JNull | Some v \<Rightarrow> v)"
  by (cases r) (simp_all add: url_of_response_array del: code_resolver.simps)

lemma resolved_map_filter:
  "filter (\<lambda>url. url \<noteq> JNull)
     (map (\<lambda>r. case code_resolver r of None \<Rightarrow> JNull | Some v \<Rightarrow> v)
        (filter (\<lambda>response. truthy response \<and> isArray response) rs)) =
   List.map_filter code_resolver rs"
proof (induction rs)
  case Nil
  show ?case by (simp add: List.map_filter_simps)
next
  case (Cons r rs)
  show ?case
  proof (cases "truthy r \<and> isArray r")
    case True
    with Cons show ?thesis
      using code_resolver_not_null [of r]
      by (cases "code_resolver r") (simp_all add: List.map_filter_simps)
  next
    case False
    then have "code_resolver r = None"
      by (cases r) simp_all
    with False Cons show ?thesis
      by (simp add: List.map_filter_simps)
  qed
qed

lemma imageUrls_total: "imageUrls rs = Inr (List.map_filter code_resolver rs)"
proof -
  have "js_map url_of_response (filter (\<lambda>response. truthy response \<and> isArray response) rs) =
        Inr (map (\<lambda>r. case code_resolver r of None \<Rightarrow> JNull | Some v \<Rightarrow> v)
               (filter (\<lambda>response. truthy response \<and> isArray response) rs))"
    by (rule js_map_total) (simp add: url_of_response_filtered)
  then show ?thesis
    by (simp add: imageUrls_def resolved_map_filter)
qed

section \<open>Properties of the join\<close>

lemma fold_run_callback_frame:
  assumes "\<And>p t. proj (setProgress p t) = proj t"
  shows "proj (fold (run_callback pct) ids s) = proj s"
  using assms
  by (induction ids arbitrary: s) (simp_all add: run_callback_def split: option.splits)

lemma fold_defer_callback_frame:
  assumes "\<And>q t. proj (t\<lparr>pending := q\<rparr>) = proj t"
  shows "proj (fold (defer_callback pct) ids s) = proj s"
  using assms
  by (induction ids arbitrary: s) (simp_all add: defer_callback_def split: option.splits)

lemma settle_all_fst: "fst (settle_all pct lag outs order s) = first_rejection outs order"
  by (induction order arbitrary: s) (simp_all split: sum.splits)

lemma settle_all_frame:
  assumes "\<And>p t. proj (setProgress p t) = proj t"
    and "\<And>q t. proj (t\<lparr>pending := q\<rparr>) = proj t"
  shows "proj (snd (settle_all pct lag outs order s)) = proj s"
proof (induction order arbitrary: s)
  case Nil
  show ?case by simp
next
  case (Cons idx order)
  have r: "proj (run_callback pct idx s) = proj s"
    using assms(1) by (simp add: run_callback_def split: option.splits)
  show ?case
    using Cons [of s] Cons [of "run_callback pct idx s"] r
    by (simp add: fold_run_callback_frame [of proj, OF assms(1)]
          fold_defer_callback_frame [of proj, OF assms(2)] split: sum.splits)
qed

lemma settle_all_silent: "snd (settle_all (\<lambda>idx. None) lag outs order s) = s"
proof -
  have "fold (run_callback (\<lambda>idx. None)) ids t = t" for ids and t :: state
    by (induction ids) (simp_all add: run_callback_def)
  moreover have "fold (defer_callback (\<lambda>idx. None)) ids t = t" for ids and t :: state
    by (induction ids) (simp_all add: defer_callback_def)
  ultimately show ?thesis
    by (induction order arbitrary: s) (simp_all add: run_callback_def split: sum.splits)
qed

lemma settle_all_fulfilled:
  "first_rejection outs order = None \<Longrightarrow>
   settle_all pct lag outs order s =
     (None, fold (run_callback pct) (filter (\<lambda>i. i < length outs) order) s)"
  by (induction order arbitrary: s) (auto split: sum.splits if_splits)

lemma promise_all_frame:
  assumes "\<And>p t. proj (setProgress p t) = proj t"
    and "\<And>q t. proj (t\<lparr>pending := q\<rparr>) = proj t"
  shows "proj (snd (promise_all pct lag outs order s)) = proj s"
proof -
  obtain r s' where rs: "settle_all pct lag outs order s = (r, s')"
    by (cases "settle_all pct lag outs order s")
  have "proj s' = proj s"
    using settle_all_frame [of proj pct lag outs order s, OF assms] rs by simp
  with rs show ?thesis
    by (cases r) (simp_all add: promise_all_def)
qed

lemma promise_all_silent: "snd (promise_all (\<lambda>idx. None) lag outs order s) = s"
  using settle_all_silent [of lag outs order s]
  by (cases "settle_all (\<lambda>idx. None) lag outs order s")
     (auto simp: promise_all_def split: option.splits)

lemma promise_all_rejects:
  "first_rejection outs order = Some e \<Longrightarrow> fst (promise_all pct lag outs order s) = Inl e"
  using settle_all_fst [of pct lag outs order s]
  by (cases "settle_all pct lag outs order s") (simp add: promise_all_def)

lemma promise_all_fulfils:
  "first_rejection outs order = None \<Longrightarrow>
   promise_all pct lag outs order s =
     (Inr (fulfilled outs), fold (run_callback pct) (filter (\<lambda>i. i < length outs) order) s)"
  by (simp add: promise_all_def settle_all_fulfilled)

section \<open>The calls of a stage\<close>

lemma start_all_strip:
  "start_all (call_stripImageMetadata env) i fs s =
     (map (stripImageMetadata (window env)) fs, s\<lparr>strip_calls := strip_calls s @ fs\<rparr>)"
  by (induction fs arbitrary: i s) (simp_all add: call_stripImageMetadata_def)

lemma strip_outcomes_map:
  "strip_outcomes env fs = map (stripImageMetadata (window env)) fs"
  by (simp add: strip_outcomes_def start_all_strip)

lemma stage_strip_unfold:
  "stage_strip env fs s =
     promise_all (\<lambda>idx. Some (round_ratio (idx + 1) (length fs) 30)) (strip_lag env)
       (strip_outcomes env fs) (strip_order env) (s\<lparr>strip_calls := strip_calls s @ fs\<rparr>)"
  by (simp add: stage_strip_def start_all_strip strip_outcomes_map)

lemma start_all_upload:
  "start_all (upload_item env) i fs s =
     (map (\<lambda>(idx, imageFile).
             blossomUploadImages env idx imageFile (signer env) (endpoints env))
        (enumerate i fs),
      s\<lparr>upload_calls := upload_calls s @
            map (\<lambda>imageFile. (imageFile, signer env, endpoints env)) fs\<rparr>)"
  by (induction fs arbitrary: i s)
     (simp_all add: upload_item_def call_blossomUploadImages_def)

lemma upload_outcomes_map:
  "upload_outcomes env fs =
     map (\<lambda>(idx, imageFile).
            blossomUploadImages env idx imageFile (signer env) (endpoints env))
       (enumerate 0 fs)"
  by (simp add: upload_outcomes_def start_all_upload)

lemma stage_upload_unfold:
  "stage_upload env fs s =
     (if isLoggedIn env
      then promise_all (\<lambda>idx. Some (30 + round_ratio (idx + 1) (length fs) 70))
             (upload_lag env) (upload_outcomes env fs) (upload_order env)
             (s\<lparr>upload_calls := upload_calls s @
                   map (\<lambda>imageFile. (imageFile, signer env, endpoints env)) fs\<rparr>)
      else (Inr [], s))"
  by (simp add: stage_upload_def start_all_upload upload_outcomes_map)

lemma endpoints_spec: "endpoints env = spec_endpoints (blossomServers env)"
  by (simp add: endpoints_def spec_endpoints_def split: option.splits list.splits)

section \<open>The rounding of the percentages\<close>

lemmas ieee_defs =
  round_ratio_def Math_round_def fl_mul_def fl_div_def to_double_def floor_log2_def
  round_half_even_def Let_def

lemma round_ratio_values:
  "round_ratio 1 2 30 = 15" "round_ratio 2 2 30 = 30"
  "round_ratio 1 2 70 = 35" "round_ratio 2 2 70 = 70"
  by (simp_all add: ieee_defs bitlen.simps)

lemma round_ratio_values_Suc:
  "round_ratio (Suc 0) (Suc (Suc 0)) 30 = 15" "round_ratio (Suc (Suc 0)) (Suc (Suc 0)) 30 = 30"
  "round_ratio (Suc 0) (Suc (Suc 0)) 70 = 35" "round_ratio (Suc (Suc 0)) (Suc (Suc 0)) 70 = 70"
  using round_ratio_values by (simp_all add: numeral_2_eq_2)

lemma round_ratio_not_exact: "round_ratio 47 140 70 = 23"
  by (simp add: ieee_defs bitlen.simps)

section \<open>Frames of the setters\<close>

lemma setProgress_frame [simp]:
  "failure_log (setProgress p s) = failure_log s"
  "failureText (setProgress p s) = failureText s"
  "showFailureModal (setProgress p s) = showFailureModal s"
  "strip_calls (setProgress p s) = strip_calls s"
  "upload_calls (setProgress p s) = upload_calls s"
  "callback_log (setProgress p s) = callback_log s"
  "timers (setProgress p s) = timers s"
  "previews (setProgress p s) = previews s"
  "pending (setProgress p s) = pending s"
  "progress (setProgress p s) = p"
  "progress_log (setProgress p s) = progress_log s @ [p]"
  by (simp_all add: setProgress_def)

lemma progress_log_fold:
  "progress_log (fold (run_callback (\<lambda>idx. Some (g idx))) is s) =
     progress_log s @ map (\<lambda>idx. Some (g idx)) is"
  by (induction "is" arbitrary: s) (simp_all add: run_callback_def)

section \<open>The try block, stage by stage\<close>

lemma try_block_unfold:
  "try_block env fs s =
     (case validate fs of
        Inl e \<Rightarrow> (Inl e, s)
      | Inr u \<Rightarrow>
         (case stage_previews env fs (setProgress (Some 0) s) of
            (Inl e, s2) \<Rightarrow> (Inl e, s2)
          | (Inr previewsList, s2) \<Rightarrow>
             (case stage_strip env fs (setPreviews previewsList s2) of
                (Inl e, s3) \<Rightarrow> (Inl e, s3)
              | (Inr stripped, s3) \<Rightarrow>
                 (case stage_upload env stripped s3 of
                    (Inl e, s4) \<Rightarrow> (Inl e, s4)
                  | (Inr responses, s4) \<Rightarrow> finalize responses s4))))"
  by (simp add: try_block_def collect_responses_def andThen_def
           split: sum.splits prod.splits)

lemma stage_previews_state: "snd (stage_previews env fs s) = s"
  unfolding stage_previews_def by (rule promise_all_silent)

lemma stage_strip_frame:
  "failure_log (snd (stage_strip env fs s)) = failure_log s"
  "upload_calls (snd (stage_strip env fs s)) = upload_calls s"
  "strip_calls (snd (stage_strip env fs s)) = strip_calls s @ fs"
  "callback_log (snd (stage_strip env fs s)) = callback_log s"
  unfolding stage_strip_unfold
  by (subst promise_all_frame; simp)+

lemma stage_upload_frame:
  "failure_log (snd (stage_upload env fs s)) = failure_log s"
  "strip_calls (snd (stage_upload env fs s)) = strip_calls s"
  "callback_log (snd (stage_upload env fs s)) = callback_log s"
  unfolding stage_upload_unfold
  by (cases "isLoggedIn env"; simp; subst promise_all_frame; simp)+

lemma stage_upload_calls:
  "upload_calls (snd (stage_upload env fs s)) =
     (if isLoggedIn env
      then upload_calls s @ map (\<lambda>imageFile. (imageFile, signer env, endpoints env)) fs
      else upload_calls s)"
  unfolding stage_upload_unfold
  by (cases "isLoggedIn env"; simp; subst promise_all_frame; simp)

lemma finalize_eq:
  "finalize responses s =
     (Inr (List.map_filter code_resolver responses),
      if List.map_filter code_resolver responses = [] 
      then setShowFailureModal True (setFailureText no_url_text (setTimeout 500 s))
      else setTimeout 500 s)"
  by (simp add: finalize_def imageUrls_total Let_def)

lemma uploadImages_cases [case_names invalid preview_failed strip_failed upload_failed finalized]:
  obtains
    e where "validate fs = Inl e" and "uploadImages env fs s = catch_block e s"
  | e where "validate fs = Inr ()"
      and "stage_previews env fs (setProgress (Some 0) s) = (Inl e, setProgress (Some 0) s)"
      and "uploadImages env fs s = catch_block e (setProgress (Some 0) s)"
  | e ps s3 where "validate fs = Inr ()"
      and "stage_previews env fs (setProgress (Some 0) s) = (Inr ps, setProgress (Some 0) s)"
      and "stage_strip env fs (setPreviews ps (setProgress (Some 0) s)) = (Inl e, s3)"
      and "uploadImages env fs s = catch_block e s3"
  | e ps stripped s3 s4 where "validate fs = Inr ()"
      and "stage_previews env fs (setProgress (Some 0) s) = (Inr ps, setProgress (Some 0) s)"
      and "stage_strip env fs (setPreviews ps (setProgress (Some 0) s)) = (Inr stripped, s3)"
      and "stage_upload env stripped s3 = (Inl e, s4)"
      and "uploadImages env fs s = catch_block e s4"
  | ps stripped s3 responses s4 where "validate fs = Inr ()"
      and "stage_previews env fs (setProgress (Some 0) s) = (Inr ps, setProgress (Some 0) s)"
      and "stage_strip env fs (setPreviews ps (setProgress (Some 0) s)) = (Inr stripped, s3)"
      and "stage_upload env stripped s3 = (Inr responses, s4)"
      and "collect_responses env fs s = (Inr responses, s4)"
      and "uploadImages env fs s =
             (List.map_filter code_resolver responses,
              if List.map_filter code_resolver responses = [] 
              then setShowFailureModal True (setFailureText no_url_text (setTimeout 500 s4))
              else setTimeout 500 s4)"
proof (cases "validate fs")
  case (Inl e)
  then have "uploadImages env fs s = catch_block e s"
    by (simp add: uploadImages_def try_block_unfold)
  with Inl show ?thesis by (rule that(1))
next
  case (Inr u)
  then have v: "validate fs = Inr ()" by simp
  let ?s1 = "setProgress (Some 0) s"
  obtain r2 where p: "stage_previews env fs ?s1 = (r2, ?s1)"
    using stage_previews_state [of env fs ?s1]
    by (cases "stage_previews env fs ?s1") simp
  show ?thesis
  proof (cases r2)
    case (Inl e)
    with v p have "uploadImages env fs s = catch_block e ?s1"
      by (simp add: uploadImages_def try_block_unfold)
    with v p Inl show ?thesis by (auto intro: that(2))
  next
    case (Inr ps)
    note ps = this
    obtain r3 s3 where st: "stage_strip env fs (setPreviews ps ?s1) = (r3, s3)"
      by (cases "stage_strip env fs (setPreviews ps ?s1)")
    show ?thesis
    proof (cases r3)
      case (Inl e)
      with v p ps st have "uploadImages env fs s = catch_block e s3"
        by (simp add: uploadImages_def try_block_unfold)
      with v p ps st Inl show ?thesis by (auto intro: that(3))
    next
      case (Inr stripped)
      note stripped = this
      obtain r4 s4 where up: "stage_upload env stripped s3 = (r4, s4)"
        by (cases "stage_upload env stripped s3")
      show ?thesis
      proof (cases r4)
        case (Inl e)
        with v p ps st stripped up have "uploadImages env fs s = catch_block e s4"
          by (simp add: uploadImages_def try_block_unfold)
        with v p ps st stripped up Inl show ?thesis by (auto intro: that(4))
      next
        case (Inr responses)
        with v p ps st stripped up have c: "collect_responses env fs s = (Inr responses, s4)"
          by (simp add: collect_responses_def andThen_def)
        from Inr v p ps st stripped up
        have "uploadImages env fs s =
             (List.map_filter code_resolver responses,
              if List.map_filter code_resolver responses = [] 
              then setShowFailureModal True (setFailureText no_url_text (setTimeout 500 s4))
              else setTimeout 500 s4)"
          by (simp add: uploadImages_def try_block_unfold finalize_eq)
        with v p ps st stripped up Inr c show ?thesis by (auto intro: that(5))
      qed
    qed
  qed
qed

lemmas setter_defs =
  setProgress_def setFailureText_def setShowFailureModal_def setPreviews_def
  setLoading_def imgCallbackOnUpload_def setTimeout_def

lemma stage_strip_dest:
  assumes "stage_strip env fs s = (r, s')"
  shows "failure_log s' = failure_log s" "upload_calls s' = upload_calls s"
    "strip_calls s' = strip_calls s @ fs"
  using stage_strip_frame [of env fs s] assms by simp_all

lemma stage_upload_dest:
  assumes "stage_upload env fs s = (r, s')"
  shows "failure_log s' = failure_log s" "strip_calls s' = strip_calls s"
    "upload_calls s' =
       (if isLoggedIn env
        then upload_calls s @ map (\<lambda>imageFile. (imageFile, signer env, endpoints env)) fs
        else upload_calls s)"
  using stage_upload_frame [of env fs s] stage_upload_calls [of env fs s] assms by simp_all

lemma stage_upload_skipped: "\<not> isLoggedIn env \<Longrightarrow> stage_upload env fs s = (Inr [], s)"
  by (simp add: stage_upload_def)

section \<open>Runs in which no item rejects, and runs in which one does\<close>

lemma fold_setProgress_frame:
  "failure_log (fold (run_callback pct) is s) = failure_log s"
  "callback_log (fold (run_callback pct) is s) = callback_log s"
  "upload_calls (fold (run_callback pct) is s) = upload_calls s"
  "strip_calls (fold (run_callback pct) is s) = strip_calls s"
  "pending (fold (run_callback pct) is s) = pending s"
  "timers (fold (run_callback pct) is s) = timers s"
  by (induction "is" arbitrary: s) (simp_all add: run_callback_def split: option.splits)

lemma progress_fold:
  "progress (fold (run_callback (\<lambda>idx. Some (g idx))) is s) =
     last (progress s # map (\<lambda>idx. Some (g idx)) is)"
  by (induction "is" arbitrary: s) (simp_all add: run_callback_def)

lemma normalize_allowed:
  "js_includes ALLOWED_TYPES t \<Longrightarrow> normalize_type t = t"
  by (auto simp: js_includes_def ALLOWED_TYPES_def normalize_type_def ascii_lower_def)

lemma uploadImages_of_collect:
  "collect_responses env fs s = (Inr responses, s1) \<Longrightarrow>
   uploadImages env fs s =
     (List.map_filter code_resolver responses,
      if List.map_filter code_resolver responses = []
      then setShowFailureModal True (setFailureText no_url_text (setTimeout 500 s1))
      else setTimeout 500 s1)"
  by (simp add: uploadImages_def try_block_def andThen_def finalize_eq)

lemma uploadImages_of_thrown:
  "fst (collect_responses env fs s) = Inl e \<Longrightarrow>
   uploadImages env fs s = catch_block e (snd (collect_responses env fs s))"
  by (cases "collect_responses env fs s")
     (simp add: uploadImages_def try_block_def andThen_def)

lemma stage_strip_fulfilled:
  "first_rejection (strip_outcomes env fs) (strip_order env) = None \<Longrightarrow>
   stage_strip env fs s =
     (Inr (fulfilled (strip_outcomes env fs)),
      fold (run_callback (\<lambda>idx. Some (round_ratio (idx + 1) (length fs) 30)))
        (filter (\<lambda>i. i < length fs) (strip_order env))
        (s\<lparr>strip_calls := strip_calls s @ fs\<rparr>))"
  by (simp add: stage_strip_unfold promise_all_fulfils) (simp add: strip_outcomes_map)

lemma stage_upload_fulfilled:
  "isLoggedIn env \<Longrightarrow>
   first_rejection (upload_outcomes env fs) (upload_order env) = None \<Longrightarrow>
   stage_upload env fs s =
     (Inr (fulfilled (upload_outcomes env fs)),
      fold (run_callback (\<lambda>idx. Some (30 + round_ratio (idx + 1) (length fs) 70)))
        (filter (\<lambda>i. i < length fs) (upload_order env))
        (s\<lparr>upload_calls := upload_calls s @
              map (\<lambda>imageFile. (imageFile, signer env, endpoints env)) fs\<rparr>))"
  by (simp add: stage_upload_unfold promise_all_fulfils) (simp add: upload_outcomes_map)

lemma stage_previews_fulfilled:
  "first_rejection (preview_outcomes env fs) (preview_order env) = None \<Longrightarrow>
   stage_previews env fs s = (Inr (fulfilled (preview_outcomes env fs)), s)"
  using stage_previews_state [of env fs s]
  by (simp add: stage_previews_def promise_all_fulfils)

lemma stage_strip_rejected:
  "first_rejection (strip_outcomes env fs) (strip_order env) = Some e \<Longrightarrow>
   fst (stage_strip env fs s) = Inl e"
  by (simp add: stage_strip_unfold promise_all_rejects)

lemma stage_upload_rejected:
  "isLoggedIn env \<Longrightarrow>
   first_rejection (upload_outcomes env fs) (upload_order env) = Some e \<Longrightarrow>
   fst (stage_upload env fs s) = Inl e"
  by (simp add: stage_upload_unfold promise_all_rejects)

lemma stage_previews_rejected:
  "first_rejection (preview_outcomes env fs) (preview_order env) = Some e \<Longrightarrow>
   stage_previews env fs s = (Inl e, s)"
  using stage_previews_state [of env fs s]
        promise_all_rejects [of "preview_outcomes env fs" "preview_order env" e "\<lambda>idx. None" 0 s]
  by (cases "stage_previews env fs s") (simp add: stage_previews_def)

lemma collect_responses_fulfilled:
  assumes "validate fs = Inr ()"
    and "first_rejection (preview_outcomes env fs) (preview_order env) = None"
    and "first_rejection (strip_outcomes env fs) (strip_order env) = None"
    and "isLoggedIn env"
    and "first_rejection (upload_outcomes env (fulfilled (strip_outcomes env fs)))
           (upload_order env) = None"
  shows "fst (collect_responses env fs s) =
           Inr (fulfilled (upload_outcomes env (fulfilled (strip_outcomes env fs))))"
    and "progress_log (snd (collect_responses env fs s)) =
           progress_log s @ [Some 0] @
           map (\<lambda>idx. Some (round_ratio (idx + 1) (length fs) 30))
             (filter (\<lambda>i. i < length fs) (strip_order env)) @
           map (\<lambda>idx. Some (30 + round_ratio (idx + 1)
                                 (length (fulfilled (strip_outcomes env fs))) 70))
             (filter (\<lambda>i. i < length (fulfilled (strip_outcomes env fs))) (upload_order env))"
    and "progress (snd (collect_responses env fs s)) =
           last (Some 0 #
             map (\<lambda>idx. Some (round_ratio (idx + 1) (length fs) 30))
               (filter (\<lambda>i. i < length fs) (strip_order env)) @
             map (\<lambda>idx. Some (30 + round_ratio (idx + 1)
                                   (length (fulfilled (strip_outcomes env fs))) 70))
               (filter (\<lambda>i. i < length (fulfilled (strip_outcomes env fs)))
                  (upload_order env)))"
    and "failure_log (snd (collect_responses env fs s)) = failure_log s"
    and "upload_calls (snd (collect_responses env fs s)) =
           upload_calls s @
           map (\<lambda>imageFile. (imageFile, signer env, endpoints env))
             (fulfilled (strip_outcomes env fs))"
    and "callback_log (snd (collect_responses env fs s)) = callback_log s"
  using assms
  by (simp_all add: collect_responses_def andThen_def stage_previews_fulfilled
        stage_strip_fulfilled stage_upload_fulfilled progress_log_fold setter_defs
        fold_setProgress_frame progress_fold)

lemma collect_responses_logged_out:
  assumes "validate fs = Inr ()"
    and "first_rejection (preview_outcomes env fs) (preview_order env) = None"
    and "first_rejection (strip_outcomes env fs) (strip_order env) = None"
    and "\<not> isLoggedIn env"
  shows "fst (collect_responses env fs s) = Inr []"
  using assms
  by (simp add: collect_responses_def andThen_def stage_previews_fulfilled
        stage_strip_fulfilled stage_upload_skipped)

lemma collect_responses_strip_rejected:
  assumes "validate fs = Inr ()"
    and "first_rejection (preview_outcomes env fs) (preview_order env) = None"
    and "first_rejection (strip_outcomes env fs) (strip_order env) = Some e"
  shows "fst (collect_responses env fs s) = Inl e"
    and "upload_calls (snd (collect_responses env fs s)) = upload_calls s"
    and "strip_calls (snd (collect_responses env fs s)) = strip_calls s @ fs"
proof -
  let ?s2 = "setPreviews (fulfilled (preview_outcomes env fs)) (setProgress (Some 0) s)"
  obtain s3 where st: "stage_strip env fs ?s2 = (Inl e, s3)"
    using stage_strip_rejected [OF assms(3), of ?s2]
    by (cases "stage_strip env fs ?s2") simp
  with assms have c: "collect_responses env fs s = (Inl e, s3)"
    by (simp add: collect_responses_def andThen_def stage_previews_fulfilled)
  then show "fst (collect_responses env fs s) = Inl e" by simp
  from c stage_strip_dest [OF st]
  show "upload_calls (snd (collect_responses env fs s)) = upload_calls s"
    and "strip_calls (snd (collect_responses env fs s)) = strip_calls s @ fs"
    by (simp_all add: setter_defs)
qed

lemma collect_responses_upload_rejected:
  assumes "validate fs = Inr ()"
    and "first_rejection (preview_outcomes env fs) (preview_order env) = None"
    and "first_rejection (strip_outcomes env fs) (strip_order env) = None"
    and "isLoggedIn env"
    and "first_rejection (upload_outcomes env (fulfilled (strip_outcomes env fs)))
           (upload_order env) = Some e"
  shows "fst (collect_responses env fs s) = Inl e"
    and "upload_calls (snd (collect_responses env fs s)) =
           upload_calls s @
           map (\<lambda>imageFile. (imageFile, signer env, endpoints env))
             (fulfilled (strip_outcomes env fs))"
proof -
  let ?stripped = "fulfilled (strip_outcomes env fs)"
  let ?s2 = "setPreviews (fulfilled (preview_outcomes env fs)) (setProgress (Some 0) s)"
  obtain s3 where st: "stage_strip env fs ?s2 = (Inr ?stripped, s3)"
    using stage_strip_fulfilled [OF assms(3)] by blast
  obtain s4 where up: "stage_upload env ?stripped s3 = (Inl e, s4)"
    using stage_upload_rejected [OF assms(4,5), of s3]
    by (cases "stage_upload env ?stripped s3") simp
  with st assms have c: "collect_responses env fs s = (Inl e, s4)"
    by (simp add: collect_responses_def andThen_def stage_previews_fulfilled)
  then show "fst (collect_responses env fs s) = Inl e" by simp
  from c stage_strip_dest [OF st] stage_upload_dest [OF up] assms(4)
  show "upload_calls (snd (collect_responses env fs s)) =
           upload_calls s @
           map (\<lambda>imageFile. (imageFile, signer env, endpoints env)) ?stripped"
    by (simp add: setter_defs)
qed

lemma collect_responses_failure_log:
  assumes "collect_responses env fs s = (r, s')"
  shows "failure_log s' = failure_log s"
proof (cases rule: uploadImages_cases [of fs env s])
  case (invalid e)
  with assms show ?thesis by (simp add: collect_responses_def andThen_def)
next
  case (preview_failed e)
  with assms show ?thesis by (auto simp add: collect_responses_def andThen_def setter_defs)
next
  case (strip_failed e ps s3)
  with assms show ?thesis
    using stage_strip_dest(1) [OF strip_failed(3)]
    by (auto simp add: collect_responses_def andThen_def setter_defs)
next
  case (upload_failed e ps stripped s3 s4)
  with assms show ?thesis
    using stage_strip_dest(1) [OF upload_failed(3)] stage_upload_dest(1) [OF upload_failed(4)]
    by (auto simp add: collect_responses_def andThen_def setter_defs)
next
  case (finalized ps stripped s3 responses s4)
  with assms show ?thesis
    using stage_strip_dest(1) [OF finalized(3)] stage_upload_dest(1) [OF finalized(4)]
    by (auto simp add: setter_defs)
qed

lemma try_block_failure_log:
  assumes "try_block env fs s = (Inl e, s1)"
  shows "failure_log s1 = failure_log s"
proof (cases "collect_responses env fs s")
  case (Pair r s')
  show ?thesis
  proof (cases r)
    case (Inl e')
    with Pair assms have "s1 = s'" by (simp add: try_block_def andThen_def)
    with Pair show ?thesis using collect_responses_failure_log by blast
  next
    case (Inr rs)
    with Pair assms show ?thesis by (simp add: try_block_def andThen_def finalize_eq)
  qed
qed

lemma uploadImages_upload_calls:
  "upload_calls (snd (uploadImages env fs s)) = upload_calls s \<or>
   (\<exists>stripped. upload_calls (snd (uploadImages env fs s)) =
      upload_calls s @ map (\<lambda>imageFile. (imageFile, signer env, endpoints env)) stripped)"
proof (cases rule: uploadImages_cases [of fs env s])
  case (invalid e)
  then show ?thesis by (simp add: catch_block_def setter_defs)
next
  case (preview_failed e)
  then show ?thesis by (simp add: catch_block_def setter_defs)
next
  case (strip_failed e ps s3)
  then show ?thesis
    using stage_strip_dest(2) [OF strip_failed(3)]
    by (simp add: catch_block_def setter_defs)
next
  case (upload_failed e ps stripped s3 s4)
  then show ?thesis
    using stage_strip_dest(2) [OF upload_failed(3)] stage_upload_dest(3) [OF upload_failed(4)]
    by (auto simp add: catch_block_def setter_defs)
next
  case (finalized ps stripped s3 responses s4)
  then show ?thesis
    using stage_strip_dest(2) [OF finalized(3)] stage_upload_dest(3) [OF finalized(4)]
    by (auto simp add: setter_defs)
qed

lemma allowed_type_iff:
  "(\<not> startsWith t ''image/'' \<or> \<not> js_includes ALLOWED_TYPES t) \<longleftrightarrow>
   t \<notin> {''image/jpeg'', ''image/png'', ''image/webp''}"
  by (auto simp: startsWith_def js_includes_def ALLOWED_TYPES_def)

lemma validate_fails_iff:
  "(\<exists>e. validate fs = Inl e) \<longleftrightarrow>
   (\<exists>f \<in> set fs. ftype f \<notin> {''image/jpeg'', ''image/png'', ''image/webp''} \<or>
                  5242880 < fsize f)"
  unfolding validate_def list_ex_iff allowed_type_iff MAX_FILE_SIZE_def
  by auto

lemma thrown_is_reported:
  assumes "try_block env fs s = (Inl e, s1)"
  shows "fst (uploadImages env fs s) = [] \<and>
         progress (snd (uploadImages env fs s)) = None \<and>
         failureText (snd (uploadImages env fs s)) =
           (case e of ErrorObj m \<Rightarrow> m
            | NonError v \<Rightarrow>
                ''Failed to upload image! Change your Blossom media server in settings.'') \<and>
         failure_log (snd (uploadImages env fs s)) = failure_log s @ [failureText (snd (uploadImages env fs s))] \<and>
         showFailureModal (snd (uploadImages env fs s))"
  using assms try_block_failure_log [OF assms]
  by (cases e) (simp_all add: uploadImages_def catch_block_def setter_defs fallback_text_def)

lemma uploadImages_calls_when_reached:
  assumes "validate fs = Inr ()"
    and "first_rejection (preview_outcomes env fs) (preview_order env) = None"
    and "first_rejection (strip_outcomes env fs) (strip_order env) = None"
    and "isLoggedIn env"
  shows "upload_calls (snd (uploadImages env fs s)) =
           upload_calls s @
           map (\<lambda>imageFile. (imageFile, signer env, endpoints env))
             (fulfilled (strip_outcomes env fs))"
proof (cases "first_rejection (upload_outcomes env (fulfilled (strip_outcomes env fs)))
                (upload_order env)")
  case None
  note c = collect_responses_fulfilled [OF assms None, of s]
  have "collect_responses env fs s = (Inr (fulfilled (upload_outcomes env (fulfilled (strip_outcomes env fs)))), snd (collect_responses env fs s))"
    using c(1) by (metis prod.collapse)
  from uploadImages_of_collect [OF this] c(5) show ?thesis
    by (simp add: setter_defs)
next
  case (Some e)
  note c = collect_responses_upload_rejected [OF assms Some, of s]
  show ?thesis
    using c(2) by (simp add: uploadImages_of_thrown [OF c(1)] catch_block_def setter_defs)
qed

section \<open>The example runs\<close>

lemma photo_fields [simp]:
  "fname (photo n) = n" "ftype (photo n) = ''image/jpeg''" "fsize (photo n) = 2048"
  "fbytes (photo n) = ''JFIF''"
  by (simp_all add: photo_def)

lemma validate_photos: "validate [photo a, photo b] = Inr ()" "validate [photo a] = Inr ()"
  by (simp_all add: validate_def startsWith_def js_includes_def ALLOWED_TYPES_def
        MAX_FILE_SIZE_def)

lemma strip_photo:
  "stripImageMetadata decoding_browser (photo n) =
     Inr \<lparr>fname = n, ftype = ''image/jpeg'', fsize = 4, fbytes = ''JFIF'', lastModified = 7\<rparr>"
proof -
  have "normalize_type ''image/jpeg'' = ''image/jpeg''"
    by (rule normalize_allowed) (simp add: js_includes_def ALLOWED_TYPES_def)
  then show ?thesis
    by (simp add: stripImageMetadata_def decoding_browser_def new_File_def)
qed

lemma serving_env_fields [simp]:
  "isLoggedIn (serving_env so uo)" "signer (serving_env so uo) = ''npub''"
  "blossomServers (serving_env so uo) = None"
  "window (serving_env so uo) = decoding_browser"
  "preview_order (serving_env so uo) = so" "strip_order (serving_env so uo) = so"
  "upload_order (serving_env so uo) = uo"
  "getBase64 (serving_env so uo) f = Inr ''data:image/jpeg;base64,''"
  "blossomUploadImages (serving_env so uo) idx f sg eps =
     Inr (url_response (''https://x/'' @ fname f))"
  by (simp_all add: serving_env_def)

lemma serving_outcomes:
  "preview_outcomes (serving_env so uo) [photo a, photo b] =
     [Inr (''data:image/jpeg;base64,'', a, 2048), Inr (''data:image/jpeg;base64,'', b, 2048)]"
  "strip_outcomes (serving_env so uo) [photo a, photo b] =
     [Inr \<lparr>fname = a, ftype = ''image/jpeg'', fsize = 4, fbytes = ''JFIF'', lastModified = 7\<rparr>,
      Inr \<lparr>fname = b, ftype = ''image/jpeg'', fsize = 4, fbytes = ''JFIF'', lastModified = 7\<rparr>]"
  "upload_outcomes (serving_env so uo) [f, g] =
     [Inr (url_response (''https://x/'' @ fname f)), Inr (url_response (''https://x/'' @ fname g))]"
  by (simp_all add: preview_outcomes_def make_preview_def strip_outcomes_map strip_photo
        upload_outcomes_map enumerate_eq_zip upt_rec)

lemma code_resolver_url_response: "code_resolver (url_response u) = Some (JStr u)"
  by (simp add: url_response_def)

lemma logged_out_env_fields [simp]:
  "\<not> isLoggedIn logged_out_env"
  "window logged_out_env = decoding_browser"
  "preview_order logged_out_env = [0]" "strip_order logged_out_env = [0]"
  "getBase64 logged_out_env f = Inr ''data:image/jpeg;base64,''"
  by (simp_all add: logged_out_env_def serving_env_def)

lemma logged_out_outcomes:
  "preview_outcomes logged_out_env [photo a] = [Inr (''data:image/jpeg;base64,'', a, 2048)]"
  "strip_outcomes logged_out_env [photo a] =
     [Inr \<lparr>fname = a, ftype = ''image/jpeg'', fsize = 4, fbytes = ''JFIF'', lastModified = 7\<rparr>]"
  by (simp_all add: preview_outcomes_def make_preview_def strip_outcomes_map strip_photo)

lemma first_upload_fails_env_fields [simp]:
  "isLoggedIn first_upload_fails_env" "signer first_upload_fails_env = ''npub''"
  "window first_upload_fails_env = decoding_browser"
  "preview_order first_upload_fails_env = [0, 1]" "strip_order first_upload_fails_env = [0, 1]"
  "upload_order first_upload_fails_env = [0, 1]"
  "getBase64 first_upload_fails_env f = Inr ''data:image/jpeg;base64,''"
  "blossomUploadImages first_upload_fails_env idx f sg eps =
     (if idx = 0 then Inl (ErrorObj ''Upload failed'')
      else Inr (url_response (''https://x/'' @ fname f)))"
  by (simp_all add: first_upload_fails_env_def serving_env_def)

lemma first_upload_fails_outcomes:
  "preview_outcomes first_upload_fails_env [photo a, photo b] =
     [Inr (''data:image/jpeg;base64,'', a, 2048), Inr (''data:image/jpeg;base64,'', b, 2048)]"
  "strip_outcomes first_upload_fails_env [photo a, photo b] =
     [Inr \<lparr>fname = a, ftype = ''image/jpeg'', fsize = 4, fbytes = ''JFIF'', lastModified = 7\<rparr>,
      Inr \<lparr>fname = b, ftype = ''image/jpeg'', fsize = 4, fbytes = ''JFIF'', lastModified = 7\<rparr>]"
  "upload_outcomes first_upload_fails_env [f, g] =
     [Inl (ErrorObj ''Upload failed''), Inr (url_response (''https://x/'' @ fname g))]"
  by (simp_all add: preview_outcomes_def make_preview_def strip_outcomes_map strip_photo
        upload_outcomes_map enumerate_eq_zip upt_rec)

lemma empty_url_env_fields [simp]:
  "isLoggedIn empty_url_env" "signer empty_url_env = ''npub''"
  "window empty_url_env = decoding_browser"
  "preview_order empty_url_env = [0]" "strip_order empty_url_env = [0]"
  "upload_order empty_url_env = [0]"
  "getBase64 empty_url_env f = Inr ''data:image/jpeg;base64,''"
  "blossomUploadImages empty_url_env idx f sg eps = Inr (JArr [JArr [JStr ''url'', JStr []]])"
  by (simp_all add: empty_url_env_def serving_env_def)

lemma empty_url_outcomes:
  "preview_outcomes empty_url_env [photo a] = [Inr (''data:image/jpeg;base64,'', a, 2048)]"
  "strip_outcomes empty_url_env [photo a] =
     [Inr \<lparr>fname = a, ftype = ''image/jpeg'', fsize = 4, fbytes = ''JFIF'', lastModified = 7\<rparr>]"
  "upload_outcomes empty_url_env [f] = [Inr (JArr [JArr [JStr ''url'', JStr []]])]"
  by (simp_all add: preview_outcomes_def make_preview_def strip_outcomes_map strip_photo
        upload_outcomes_map enumerate_eq_zip upt_rec)

lemma no_url_env_fields [simp]:
  "isLoggedIn no_url_env" "signer no_url_env = ''npub''"
  "window no_url_env = decoding_browser"
  "preview_order no_url_env = [0]" "strip_order no_url_env = [0]"
  "upload_order no_url_env = [0]"
  "getBase64 no_url_env f = Inr ''data:image/jpeg;base64,''"
  "blossomUploadImages no_url_env idx f sg eps = Inr (JArr [JArr [JStr ''size'', JStr ''100'']])"
  by (simp_all add: no_url_env_def serving_env_def)

lemma no_url_outcomes:
  "preview_outcomes no_url_env [photo a] = [Inr (''data:image/jpeg;base64,'', a, 2048)]"
  "strip_outcomes no_url_env [photo a] =
     [Inr \<lparr>fname = a, ftype = ''image/jpeg'', fsize = 4, fbytes = ''JFIF'', lastModified = 7\<rparr>]"
  "upload_outcomes no_url_env [f] = [Inr (JArr [JArr [JStr ''size'', JStr ''100'']])]"
  by (simp_all add: preview_outcomes_def make_preview_def strip_outcomes_map strip_photo
        upload_outcomes_map enumerate_eq_zip upt_rec)

lemma undecodable_env_fields [simp]:
  "preview_order undecodable_env = [0, 1]" "strip_order undecodable_env = [0, 1]"
  "getBase64 undecodable_env f = Inr ''data:image/jpeg;base64,''"
  "image_load (window undecodable_env) f = None"
  by (simp_all add: undecodable_env_def serving_env_def)

lemma undecodable_outcomes:
  "preview_outcomes undecodable_env [photo a, photo b] =
     [Inr (''data:image/jpeg;base64,'', a, 2048), Inr (''data:image/jpeg;base64,'', b, 2048)]"
  "strip_outcomes undecodable_env [f, g] =
     [Inl (ErrorObj ''Failed to load image''), Inl (ErrorObj ''Failed to load image'')]"
  by (simp_all add: preview_outcomes_def make_preview_def strip_outcomes_map
        stripImageMetadata_def)

lemma first_upload_fails_env_more [simp]:
  "upload_lag first_upload_fails_env = 0" "strip_lag first_upload_fails_env = 0"
  "blossomServers first_upload_fails_env = None"
  by (simp_all add: first_upload_fails_env_def serving_env_def)

lemma stage_upload_first_fails:
  "stage_upload first_upload_fails_env [f, g] s =
     (Inl (ErrorObj ''Upload failed''),
      s\<lparr>upload_calls := upload_calls s @
            [(f, ''npub'', [''https://cdn.nostrcheck.me'']),
             (g, ''npub'', [''https://cdn.nostrcheck.me''])],
        pending := pending s @ [100]\<rparr>)"
  by (simp add: stage_upload_unfold first_upload_fails_outcomes promise_all_def fulfilling_def
        defer_callback_def run_callback_def round_ratio_values_Suc endpoints_def)

lemma settled_together_env_fields [simp]:
  "isLoggedIn settled_together_env" "signer settled_together_env = ''npub''"
  "window settled_together_env = decoding_browser"
  "preview_order settled_together_env = [0, 1]" "strip_order settled_together_env = [0, 1]"
  "upload_order settled_together_env = [0, 1]"
  "upload_lag settled_together_env = 1"
  "blossomServers settled_together_env = None"
  "getBase64 settled_together_env f = Inr ''data:image/jpeg;base64,''"
  "blossomUploadImages settled_together_env idx f sg eps =
     (if idx = 0 then Inl (ErrorObj ''Upload failed'')
      else Inr (url_response (''https://x/'' @ fname f)))"
  by (simp_all add: settled_together_env_def first_upload_fails_env_def serving_env_def)

lemma settled_together_outcomes:
  "preview_outcomes settled_together_env [photo a, photo b] =
     [Inr (''data:image/jpeg;base64,'', a, 2048), Inr (''data:image/jpeg;base64,'', b, 2048)]"
  "strip_outcomes settled_together_env [photo a, photo b] =
     [Inr \<lparr>fname = a, ftype = ''image/jpeg'', fsize = 4, fbytes = ''JFIF'', lastModified = 7\<rparr>,
      Inr \<lparr>fname = b, ftype = ''image/jpeg'', fsize = 4, fbytes = ''JFIF'', lastModified = 7\<rparr>]"
  "upload_outcomes settled_together_env [f, g] =
     [Inl (ErrorObj ''Upload failed''), Inr (url_response (''https://x/'' @ fname g))]"
  by (simp_all add: preview_outcomes_def make_preview_def strip_outcomes_map strip_photo
        upload_outcomes_map enumerate_eq_zip upt_rec)

lemma stage_upload_settled_together:
  "stage_upload settled_together_env [f, g] s =
     (Inl (ErrorObj ''Upload failed''),
      setProgress (Some 100)
        (s\<lparr>upload_calls := upload_calls s @
              [(f, ''npub'', [''https://cdn.nostrcheck.me'']),
               (g, ''npub'', [''https://cdn.nostrcheck.me''])]\<rparr>))"
  by (simp add: stage_upload_unfold settled_together_outcomes promise_all_def fulfilling_def
        defer_callback_def run_callback_def round_ratio_values_Suc endpoints_def)

lemma settled_together_run:
  "progress_log (snd (uploadImages settled_together_env
                        [photo ''a.jpg'', photo ''b.jpg''] init_state)) =
     [Some 0, Some 15, Some 30, Some 100, None] \<and>
   pending (snd (uploadImages settled_together_env
                   [photo ''a.jpg'', photo ''b.jpg''] init_state)) = []"
  by (simp add: uploadImages_def try_block_def collect_responses_def andThen_def
        validate_photos stage_previews_fulfilled stage_strip_fulfilled
        settled_together_outcomes stage_upload_settled_together
        catch_block_def setter_defs run_callback_def round_ratio_values_Suc
        init_state_def)

lemma first_decode_fails_env_fields [simp]:
  "preview_order first_decode_fails_env = [0, 1]" "strip_order first_decode_fails_env = [0, 1]"
  "strip_lag first_decode_fails_env = 0"
  "getBase64 first_decode_fails_env f = Inr ''data:image/jpeg;base64,''"
  "window first_decode_fails_env =
     decoding_browser\<lparr>image_load := (\<lambda>f. if fname f = ''a.jpg'' then None else Some (4, 3))\<rparr>"
  by (simp_all add: first_decode_fails_env_def serving_env_def)

lemma first_decode_fails_outcomes:
  "preview_outcomes first_decode_fails_env [photo a, photo b] =
     [Inr (''data:image/jpeg;base64,'', a, 2048), Inr (''data:image/jpeg;base64,'', b, 2048)]"
  "strip_outcomes first_decode_fails_env [photo ''a.jpg'', photo ''b.jpg''] =
     [Inl (ErrorObj ''Failed to load image''),
      Inr \<lparr>fname = ''b.jpg'', ftype = ''image/jpeg'', fsize = 4, fbytes = ''JFIF'',
           lastModified = 7\<rparr>]"
proof -
  have n: "normalize_type ''image/jpeg'' = ''image/jpeg''"
    by (rule normalize_allowed) (simp add: js_includes_def ALLOWED_TYPES_def)
  show "preview_outcomes first_decode_fails_env [photo a, photo b] =
     [Inr (''data:image/jpeg;base64,'', a, 2048), Inr (''data:image/jpeg;base64,'', b, 2048)]"
    by (simp add: preview_outcomes_def make_preview_def)
  show "strip_outcomes first_decode_fails_env [photo ''a.jpg'', photo ''b.jpg''] =
     [Inl (ErrorObj ''Failed to load image''),
      Inr \<lparr>fname = ''b.jpg'', ftype = ''image/jpeg'', fsize = 4, fbytes = ''JFIF'',
           lastModified = 7\<rparr>]"
    by (simp add: strip_outcomes_map stripImageMetadata_def decoding_browser_def new_File_def n)
qed

lemma stage_strip_first_fails:
  "stage_strip first_decode_fails_env [photo ''a.jpg'', photo ''b.jpg''] s =
     (Inl (ErrorObj ''Failed to load image''),
      s\<lparr>strip_calls := strip_calls s @ [photo ''a.jpg'', photo ''b.jpg''],
        pending := pending s @ [30]\<rparr>)"
  by (simp add: stage_strip_unfold first_decode_fails_outcomes promise_all_def fulfilling_def
        defer_callback_def run_callback_def round_ratio_values_Suc)

lemma echo_env_fields [simp]:
  "isLoggedIn (echo_env c)" "signer (echo_env c) = ''npub''"
  "blossomServers (echo_env c) = c"
  "window (echo_env c) = decoding_browser"
  "preview_order (echo_env c) = [0]" "strip_order (echo_env c) = [0]"
  "upload_order (echo_env c) = [0]"
  "getBase64 (echo_env c) f = Inr ''data:image/jpeg;base64,''"
  "blossomUploadImages (echo_env c) idx f sg eps =
     Inr (url_response (concat (map (\<lambda>e. e @ ''|'') eps) @ fname f))"
  by (simp_all add: echo_env_def serving_env_def)

lemma echo_outcomes:
  "preview_outcomes (echo_env c) [photo a] = [Inr (''data:image/jpeg;base64,'', a, 2048)]"
  "strip_outcomes (echo_env c) [photo a] =
     [Inr \<lparr>fname = a, ftype = ''image/jpeg'', fsize = 4, fbytes = ''JFIF'', lastModified = 7\<rparr>]"
  by (simp_all add: preview_outcomes_def make_preview_def strip_outcomes_map strip_photo)

section \<open>The claims\<close>

text \<open>
  C1. The claim: within a run the progress never decreases, is 30 exactly when the
  sanitize stage has completed all items and 100 exactly when the upload stage has,
  whatever the order in which the concurrent items complete. The code computes the
  percentage of an item from its index in the batch, not from the number of items
  completed. In the run below two valid files are uploaded by a logged-in caller and the
  second file settles before the first in both stages: the progress is set to 0, 30, 15,
  100, 65 in this order. It reaches 30 while a file is still being sanitized, falls
  twice, and stays at 65 although both uploads completed and both urls are returned.
\<close>

theorem progress_follows_submission_index:
  "progress_log (snd (uploadImages (serving_env [1, 0] [1, 0])
                        [photo ''a.jpg'', photo ''b.jpg''] init_state)) =
     [Some 0, Some 30, Some 15, Some 100, Some 65] \<and>
   progress (snd (uploadImages (serving_env [1, 0] [1, 0])
                    [photo ''a.jpg'', photo ''b.jpg''] init_state)) = Some 65 \<and>
   fst (uploadImages (serving_env [1, 0] [1, 0]) [photo ''a.jpg'', photo ''b.jpg''] init_state) =
     [JStr ''https://x/a.jpg'', JStr ''https://x/b.jpg'']"
proof -
  let ?env = "serving_env [1, 0] [1, 0]"
  let ?fs = "[photo ''a.jpg'', photo ''b.jpg'']"
  let ?c = "collect_responses ?env ?fs init_state"
  have r: "fst ?c = Inr [url_response ''https://x/a.jpg'', url_response ''https://x/b.jpg'']"
    by (subst collect_responses_fulfilled(1))
       (simp_all add: validate_photos serving_outcomes)
  have l: "progress_log (snd ?c) = [Some 0, Some 30, Some 15, Some 100, Some 65]"
    by (subst collect_responses_fulfilled(2))
       (simp_all add: validate_photos serving_outcomes round_ratio_values_Suc init_state_def)
  have p: "progress (snd ?c) = Some 65"
    by (subst collect_responses_fulfilled(3))
       (simp_all add: validate_photos serving_outcomes round_ratio_values_Suc init_state_def)
  have "?c = (Inr [url_response ''https://x/a.jpg'', url_response ''https://x/b.jpg''], snd ?c)"
    using r by (metis prod.collapse)
  from uploadImages_of_collect [OF this] l p show ?thesis
    by (simp add: List.map_filter_simps code_resolver_url_response setter_defs)
qed

text \<open>
  C2 (as amended). For every raw upload response the resolver returns without throwing.
  A response that is not an array resolves to absence. In an array response the first
  array tag whose first element is the string \<^verbatim>\<open>url\<close> decides alone, whatever its
  length: the result is its second element when the tag has at least two elements and
  that element is not \<^verbatim>\<open>null\<close>, and absence otherwise; a later tag is never
  looked at. Absence as well when no tag starts with \<^verbatim>\<open>url\<close>.
\<close>

theorem resolver_first_url_tag_decides:
  "imageUrls [r] = Inr (case code_resolver r of None \<Rightarrow> [] | Some v \<Rightarrow> [v])"
  by (cases "code_resolver r") (simp_all add: imageUrls_total List.map_filter_simps)

theorem resolver_first_url_tag_decides_witness:
  "imageUrls [JArr [JArr [JStr ''url'', JStr ''https://x/1.png''], JArr [JStr ''size'', JStr ''100'']]]
     = Inr [JStr ''https://x/1.png''] \<and>
   imageUrls [JArr [JArr [JStr ''size'', JStr ''100'']]] = Inr [] \<and>
   imageUrls [JStr ''Bad Gateway''] = Inr [] \<and>
   imageUrls [JArr [JArr [JStr ''url'']]] = Inr []"
  using resolver_first_url_tag_decides
          [of "JArr [JArr [JStr ''url'', JStr ''https://x/1.png''], JArr [JStr ''size'', JStr ''100'']]"]
        resolver_first_url_tag_decides [of "JArr [JArr [JStr ''size'', JStr ''100'']]"]
        resolver_first_url_tag_decides [of "JStr ''Bad Gateway''"]
        resolver_first_url_tag_decides [of "JArr [JArr [JStr ''url'']]"]
  by simp

text \<open>
  C2 as stated fails: a url tag of length one in front of a url tag of length two. The
  specification's resolver picks the second tag, the code stops at the first and
  resolves to absence.
\<close>

theorem resolver_spec_counterexample:
  "spec_resolver (JArr [JArr [JStr ''url''], JArr [JStr ''url'', JStr ''https://x/1.png'']])
     = Some (JStr ''https://x/1.png'') \<and>
   imageUrls [JArr [JArr [JStr ''url''], JArr [JStr ''url'', JStr ''https://x/1.png'']]] = Inr []"
  by (simp add: imageUrls_def url_of_response_def is_url_tag_def)

text \<open>
  C3 (as amended). A failure of one item in the sanitize stage or in the upload stage is
  not isolated. Every item of the stage is started, but the join rejects with the first
  failure in completion order and the outcomes of the other items are not collected: the
  run returns the empty result and the failure text is the message of that failure.
  After a failure in the sanitize stage no upload call is made; after a failure in the
  upload stage every sanitized file has been handed to the collaborator.
\<close>

theorem item_failure_rejects_whole_run:
  "(validate fs = Inr () \<and>
    first_rejection (preview_outcomes env fs) (preview_order env) = None \<and>
    first_rejection (strip_outcomes env fs) (strip_order env) = Some e \<longrightarrow>
      fst (uploadImages env fs s) = [] \<and>
      failureText (snd (uploadImages env fs s)) = message_of e \<and>
      strip_calls (snd (uploadImages env fs s)) = strip_calls s @ fs \<and>
      upload_calls (snd (uploadImages env fs s)) = upload_calls s) \<and>
   (validate fs = Inr () \<and>
    first_rejection (preview_outcomes env fs) (preview_order env) = None \<and>
    first_rejection (strip_outcomes env fs) (strip_order env) = None \<and>
    isLoggedIn env \<and>
    first_rejection (upload_outcomes env (fulfilled (strip_outcomes env fs)))
      (upload_order env) = Some e \<longrightarrow>
      fst (uploadImages env fs s) = [] \<and>
      failureText (snd (uploadImages env fs s)) = message_of e \<and>
      upload_calls (snd (uploadImages env fs s)) =
        upload_calls s @
        map (\<lambda>imageFile. (imageFile, signer env, endpoints env))
          (fulfilled (strip_outcomes env fs)))"
proof (intro conjI impI; elim conjE)
  assume a: "validate fs = Inr ()"
    "first_rejection (preview_outcomes env fs) (preview_order env) = None"
    "first_rejection (strip_outcomes env fs) (strip_order env) = Some e"
  note c = collect_responses_strip_rejected [OF a, of s]
  show "fst (uploadImages env fs s) = []"
    "failureText (snd (uploadImages env fs s)) = message_of e"
    "strip_calls (snd (uploadImages env fs s)) = strip_calls s @ fs"
    "upload_calls (snd (uploadImages env fs s)) = upload_calls s"
    using c by (simp_all add: uploadImages_of_thrown [OF c(1)] catch_block_def setter_defs)
next
  assume a: "validate fs = Inr ()"
    "first_rejection (preview_outcomes env fs) (preview_order env) = None"
    "first_rejection (strip_outcomes env fs) (strip_order env) = None"
    "isLoggedIn env"
    "first_rejection (upload_outcomes env (fulfilled (strip_outcomes env fs)))
      (upload_order env) = Some e"
  note c = collect_responses_upload_rejected [OF a, of s]
  show "fst (uploadImages env fs s) = []"
    "failureText (snd (uploadImages env fs s)) = message_of e"
    "upload_calls (snd (uploadImages env fs s)) =
        upload_calls s @
        map (\<lambda>imageFile. (imageFile, signer env, endpoints env))
          (fulfilled (strip_outcomes env fs))"
    using c by (simp_all add: uploadImages_of_thrown [OF c(1)] catch_block_def setter_defs)
qed

theorem item_failure_rejects_whole_run_witness:
  "first_rejection
     (upload_outcomes first_upload_fails_env
        (fulfilled (strip_outcomes first_upload_fails_env [photo ''a.jpg'', photo ''b.jpg''])))
     (upload_order first_upload_fails_env) = Some (ErrorObj ''Upload failed'') \<and>
   fst (uploadImages first_upload_fails_env [photo ''a.jpg'', photo ''b.jpg''] init_state) = [] \<and>
   failureText (snd (uploadImages first_upload_fails_env [photo ''a.jpg'', photo ''b.jpg''] init_state))
     = ''Upload failed'' \<and>
   length (upload_calls
     (snd (uploadImages first_upload_fails_env [photo ''a.jpg'', photo ''b.jpg''] init_state))) = 2 \<and>
   first_rejection (strip_outcomes undecodable_env [photo ''a.jpg'', photo ''b.jpg''])
     (strip_order undecodable_env) = Some (ErrorObj ''Failed to load image'') \<and>
   fst (uploadImages undecodable_env [photo ''a.jpg'', photo ''b.jpg''] init_state) = [] \<and>
   failureText (snd (uploadImages undecodable_env [photo ''a.jpg'', photo ''b.jpg''] init_state))
     = ''Failed to load image'' \<and>
   strip_calls (snd (uploadImages undecodable_env [photo ''a.jpg'', photo ''b.jpg''] init_state))
     = [photo ''a.jpg'', photo ''b.jpg''] \<and>
   upload_calls (snd (uploadImages undecodable_env [photo ''a.jpg'', photo ''b.jpg''] init_state))
     = []"
proof -
  let ?fs = "[photo ''a.jpg'', photo ''b.jpg'']"
  have h: "validate ?fs = Inr ()"
    "first_rejection (preview_outcomes first_upload_fails_env ?fs)
       (preview_order first_upload_fails_env) = None"
    "first_rejection (strip_outcomes first_upload_fails_env ?fs)
       (strip_order first_upload_fails_env) = None"
    "isLoggedIn first_upload_fails_env"
    "first_rejection
       (upload_outcomes first_upload_fails_env
          (fulfilled (strip_outcomes first_upload_fails_env ?fs)))
       (upload_order first_upload_fails_env) = Some (ErrorObj ''Upload failed'')"
    by (simp_all add: validate_photos first_upload_fails_outcomes)
  have g: "first_rejection (preview_outcomes undecodable_env ?fs)
       (preview_order undecodable_env) = None"
    "first_rejection (strip_outcomes undecodable_env ?fs)
       (strip_order undecodable_env) = Some (ErrorObj ''Failed to load image'')"
    by (simp_all add: undecodable_outcomes)
  show ?thesis
    using item_failure_rejects_whole_run
            [of ?fs first_upload_fails_env "ErrorObj ''Upload failed''" init_state] h
          item_failure_rejects_whole_run
            [of ?fs undecodable_env "ErrorObj ''Failed to load image''" init_state] g
    by (simp add: first_upload_fails_outcomes init_state_def)
qed

text \<open>
  C3 as stated fails: two valid files, the upload of the first rejects and the upload of
  the second answers with a url tag. The second outcome alone resolves to a url, yet the
  upload stage rejects and the run returns no url.
\<close>

theorem failure_isolation_counterexample:
  "fulfilled (upload_outcomes first_upload_fails_env
       (fulfilled (strip_outcomes first_upload_fails_env [photo ''a.jpg'', photo ''b.jpg''])))
     = [url_response ''https://x/b.jpg''] \<and>
   imageUrls [url_response ''https://x/b.jpg''] = Inr [JStr ''https://x/b.jpg''] \<and>
   fst (stage_upload first_upload_fails_env
          (fulfilled (strip_outcomes first_upload_fails_env [photo ''a.jpg'', photo ''b.jpg'']))
          init_state) = Inl (ErrorObj ''Upload failed'') \<and>
   fst (uploadImages first_upload_fails_env [photo ''a.jpg'', photo ''b.jpg''] init_state) = []"
proof -
  let ?fs = "[photo ''a.jpg'', photo ''b.jpg'']"
  let ?stripped = "fulfilled (strip_outcomes first_upload_fails_env ?fs)"
  have o: "fulfilled (upload_outcomes first_upload_fails_env ?stripped) =
             [url_response ''https://x/b.jpg'']"
    by (simp add: first_upload_fails_outcomes)
  have u: "imageUrls [url_response ''https://x/b.jpg''] = Inr [JStr ''https://x/b.jpg'']"
    by (simp add: imageUrls_total List.map_filter_simps code_resolver_url_response)
  have r: "first_rejection (upload_outcomes first_upload_fails_env ?stripped)
             (upload_order first_upload_fails_env) = Some (ErrorObj ''Upload failed'')"
    by (simp add: first_upload_fails_outcomes)
  have s: "fst (stage_upload first_upload_fails_env ?stripped init_state) =
             Inl (ErrorObj ''Upload failed'')"
    by (rule stage_upload_rejected [OF _ r]) simp
  have c: "fst (collect_responses first_upload_fails_env ?fs init_state) =
             Inl (ErrorObj ''Upload failed'')"
    by (rule collect_responses_upload_rejected(1) [OF _ _ _ _ r])
       (simp_all add: validate_photos first_upload_fails_outcomes)
  have "fst (uploadImages first_upload_fails_env ?fs init_state) = []"
    by (simp add: uploadImages_of_thrown [OF c] catch_block_def)
  with o u s show ?thesis by simp
qed

text \<open>
  C4. Validation fails if and only if some file of the batch has a declared type outside
  image/jpeg, image/png and image/webp or a size above 5,242,880 bytes. When it fails
  the whole batch is rejected: the run returns no url, no file is handed to the
  sanitizer or to the upload collaborator, the previews are untouched, the only progress
  update is the reset, and exactly one failure text, the message of the validation
  error, is set.
\<close>

theorem validation_rejects_whole_batch:
  "((\<exists>e. validate fs = Inl e) \<longleftrightarrow>
    (\<exists>f \<in> set fs. ftype f \<notin> {''image/jpeg'', ''image/png'', ''image/webp''} \<or>
                   5242880 < fsize f)) \<and>
   (\<forall>e. validate fs = Inl e \<longrightarrow>
      fst (uploadImages env fs s) = [] \<and>
      strip_calls (snd (uploadImages env fs s)) = strip_calls s \<and>
      upload_calls (snd (uploadImages env fs s)) = upload_calls s \<and>
      previews (snd (uploadImages env fs s)) = previews s \<and>
      progress_log (snd (uploadImages env fs s)) = progress_log s @ [None] \<and>
      failure_log (snd (uploadImages env fs s)) = failure_log s @ [message_of e])"
proof (intro conjI allI impI)
  show "(\<exists>e. validate fs = Inl e) \<longleftrightarrow>
    (\<exists>f \<in> set fs. ftype f \<notin> {''image/jpeg'', ''image/png'', ''image/webp''} \<or>
                   5242880 < fsize f)"
    by (rule validate_fails_iff)
next
  fix e assume "validate fs = Inl e"
  then have u: "uploadImages env fs s = catch_block e s"
    by (simp add: uploadImages_def try_block_unfold)
  show "fst (uploadImages env fs s) = []"
    "strip_calls (snd (uploadImages env fs s)) = strip_calls s"
    "upload_calls (snd (uploadImages env fs s)) = upload_calls s"
    "previews (snd (uploadImages env fs s)) = previews s"
    "progress_log (snd (uploadImages env fs s)) = progress_log s @ [None]"
    "failure_log (snd (uploadImages env fs s)) = failure_log s @ [message_of e]"
    by (simp_all add: u catch_block_def setter_defs)
qed

theorem validation_rejects_whole_batch_witness:
  "validate [photo ''a.jpg'', (photo ''b.gif'')\<lparr>ftype := ''image/gif''\<rparr>] =
     Inl (ErrorObj ''Only JPEG, PNG, or WebP images are supported!'') \<and>
   fst (uploadImages (serving_env [0, 1] [0, 1])
          [photo ''a.jpg'', (photo ''b.gif'')\<lparr>ftype := ''image/gif''\<rparr>] init_state) = [] \<and>
   strip_calls (snd (uploadImages (serving_env [0, 1] [0, 1])
          [photo ''a.jpg'', (photo ''b.gif'')\<lparr>ftype := ''image/gif''\<rparr>] init_state)) = [] \<and>
   upload_calls (snd (uploadImages (serving_env [0, 1] [0, 1])
          [photo ''a.jpg'', (photo ''b.gif'')\<lparr>ftype := ''image/gif''\<rparr>] init_state)) = [] \<and>
   failure_log (snd (uploadImages (serving_env [0, 1] [0, 1])
          [photo ''a.jpg'', (photo ''b.gif'')\<lparr>ftype := ''image/gif''\<rparr>] init_state)) =
     [''Only JPEG, PNG, or WebP images are supported!''] \<and>
   validate [photo ''a.jpg'', (photo ''big.jpg'')\<lparr>fsize := 5242881\<rparr>] =
     Inl (ErrorObj ''Each image must be smaller than 5 MB'') \<and>
   fst (uploadImages (serving_env [0, 1] [0, 1])
          [photo ''a.jpg'', (photo ''big.jpg'')\<lparr>fsize := 5242881\<rparr>] init_state) = [] \<and>
   failure_log (snd (uploadImages (serving_env [0, 1] [0, 1])
          [photo ''a.jpg'', (photo ''big.jpg'')\<lparr>fsize := 5242881\<rparr>] init_state)) =
     [''Each image must be smaller than 5 MB''] \<and>
   validate [photo ''a.jpg'', (photo ''full.jpg'')\<lparr>fsize := 5242880\<rparr>] = Inr ()"
proof -
  let ?fs = "[photo ''a.jpg'', (photo ''b.gif'')\<lparr>ftype := ''image/gif''\<rparr>]"
  let ?gs = "[photo ''a.jpg'', (photo ''big.jpg'')\<lparr>fsize := 5242881\<rparr>]"
  let ?hs = "[photo ''a.jpg'', (photo ''full.jpg'')\<lparr>fsize := 5242880\<rparr>]"
  have v: "validate ?fs = Inl (ErrorObj ''Only JPEG, PNG, or WebP images are supported!'')"
    by (simp add: validate_def startsWith_def js_includes_def ALLOWED_TYPES_def)
  have w: "validate ?gs = Inl (ErrorObj ''Each image must be smaller than 5 MB'')"
    by (simp add: validate_def startsWith_def js_includes_def ALLOWED_TYPES_def
          MAX_FILE_SIZE_def)
  have "\<not> (\<exists>f \<in> set ?hs. ftype f \<notin> {''image/jpeg'', ''image/png'', ''image/webp''} \<or>
                          5242880 < fsize f)"
    by simp
  then have "\<not> (\<exists>e. validate ?hs = Inl e)"
    using validation_rejects_whole_batch [of ?hs "serving_env [0, 1] [0, 1]" init_state]
    by blast
  then have x: "validate ?hs = Inr ()"
    by (cases "validate ?hs") auto
  show ?thesis
    using validation_rejects_whole_batch [of ?fs "serving_env [0, 1] [0, 1]" init_state] v
          validation_rejects_whole_batch [of ?gs "serving_env [0, 1] [0, 1]" init_state] w x
    by (simp add: init_state_def)
qed

text \<open>
  C5. For a valid batch and a caller who is not logged in, no call of the upload
  collaborator is made and the run returns the empty sequence.
\<close>

theorem unauthenticated_skips_upload:
  assumes "validate fs = Inr ()" and "\<not> isLoggedIn env"
  shows "fst (uploadImages env fs s) = [] \<and>
         upload_calls (snd (uploadImages env fs s)) = upload_calls s"
proof (cases rule: uploadImages_cases [of fs env s])
  case (invalid e)
  then show ?thesis by (simp add: catch_block_def setter_defs)
next
  case (preview_failed e)
  then show ?thesis by (simp add: catch_block_def setter_defs)
next
  case (strip_failed e ps s3)
  then show ?thesis
    using stage_strip_dest(2) [OF strip_failed(3)]
    by (simp add: catch_block_def setter_defs)
next
  case (upload_failed e ps stripped s3 s4)
  with assms show ?thesis by (simp add: stage_upload_skipped)
next
  case (finalized ps stripped s3 responses s4)
  from finalized(4) assms have "responses = []" "s4 = s3"
    by (simp_all add: stage_upload_skipped)
  with finalized show ?thesis
    using stage_strip_dest(2) [OF finalized(3)]
    by (simp add: List.map_filter_simps setter_defs)
qed

theorem unauthenticated_skips_upload_witness:
  "validate [photo ''a.jpg''] = Inr () \<and> \<not> isLoggedIn logged_out_env \<and>
   fst (uploadImages logged_out_env [photo ''a.jpg''] init_state) = [] \<and>
   upload_calls (snd (uploadImages logged_out_env [photo ''a.jpg''] init_state)) = []"
  using unauthenticated_skips_upload [of "[photo ''a.jpg'']" logged_out_env init_state]
  by (simp add: validate_photos) (simp add: init_state_def)

text \<open>
  C6. When the stages of a run deliver raw responses (none when the uploads are skipped)
  and no url is resolved from them, the run returns the empty result and sets exactly
  one failure text, the one that tells the user to change the media server, and shows
  the failure modal.
\<close>

theorem no_url_reports_once:
  assumes "collect_responses env fs s = (Inr responses, s1)"
    and "imageUrls responses = Inr []"
  shows "fst (uploadImages env fs s) = [] \<and>
         failure_log (snd (uploadImages env fs s)) = failure_log s @ [no_url_text] \<and>
         failureText (snd (uploadImages env fs s)) = no_url_text \<and>
         showFailureModal (snd (uploadImages env fs s))"
proof -
  have f: "failure_log s1 = failure_log s"
    using assms(1) by (rule collect_responses_failure_log)
  have "uploadImages env fs s =
          ([], setShowFailureModal True (setFailureText no_url_text (setTimeout 500 s1)))"
    using assms by (simp add: uploadImages_def try_block_def andThen_def finalize_def)
  with f show ?thesis by (simp add: setter_defs)
qed

theorem no_url_reports_once_witness:
  "fst (collect_responses logged_out_env [photo ''a.jpg''] init_state) = Inr [] \<and>
   imageUrls [] = Inr [] \<and>
   fst (uploadImages logged_out_env [photo ''a.jpg''] init_state) = [] \<and>
   failure_log (snd (uploadImages logged_out_env [photo ''a.jpg''] init_state)) =
     [''Image upload failed to yield a URL! Change your Blossom media server in settings or try again.''] \<and>
   fst (collect_responses no_url_env [photo ''a.jpg''] init_state) =
     Inr [JArr [JArr [JStr ''size'', JStr ''100'']]] \<and>
   imageUrls [JArr [JArr [JStr ''size'', JStr ''100'']]] = Inr [] \<and>
   fst (uploadImages no_url_env [photo ''a.jpg''] init_state) = [] \<and>
   failure_log (snd (uploadImages no_url_env [photo ''a.jpg''] init_state)) =
     [''Image upload failed to yield a URL! Change your Blossom media server in settings or try again.'']"
proof -
  let ?c = "collect_responses logged_out_env [photo ''a.jpg''] init_state"
  have r: "fst ?c = Inr []"
    by (rule collect_responses_logged_out)
       (simp_all add: validate_photos logged_out_outcomes)
  then have c: "?c = (Inr [], snd ?c)"
    by (metis prod.collapse)
  have u: "imageUrls [] = Inr []"
    by (simp add: imageUrls_def)
  let ?d = "collect_responses no_url_env [photo ''a.jpg''] init_state"
  have r': "fst ?d = Inr [JArr [JArr [JStr ''size'', JStr ''100'']]]"
    by (subst collect_responses_fulfilled(1))
       (simp_all add: validate_photos no_url_outcomes)
  then have d: "?d = (Inr [JArr [JArr [JStr ''size'', JStr ''100'']]], snd ?d)"
    by (metis prod.collapse)
  have u': "imageUrls [JArr [JArr [JStr ''size'', JStr ''100'']]] = Inr []"
    by (simp add: imageUrls_total List.map_filter_simps)
  show ?thesis
    using no_url_reports_once [OF c u] no_url_reports_once [OF d u'] r u r' u'
    by (simp add: init_state_def no_url_text_def)
qed

text \<open>
  C7. The claim: after any uncaught failure the run yields the empty result, the progress
  is reset to the sentinel, and one failure text is shown. The catch block returns the
  empty result, sets one failure text and sets the progress to the sentinel, but the
  reset does not last. When an item rejects while a sibling is still pending, the join
  rejects at once and the catch block runs; the sibling settles afterwards, its callback
  sets the progress from its index, and nothing resets it: the timer of line 174 is not
  set on this path. In the first run below the first of two uploads rejects and the
  second answers later: the progress is set to 0, 15, 30, the sentinel, and then 100,
  where it stays beside the failure modal. In the second run the first of two files
  fails to decode and the second is re-encoded later: the progress ends at 30.
\<close>

theorem failure_reset_is_overwritten:
  "fst (uploadImages first_upload_fails_env [photo ''a.jpg'', photo ''b.jpg''] init_state) = [] \<and>
   failure_log (snd (uploadImages first_upload_fails_env
                       [photo ''a.jpg'', photo ''b.jpg''] init_state)) = [''Upload failed''] \<and>
   progress (snd (uploadImages first_upload_fails_env
                    [photo ''a.jpg'', photo ''b.jpg''] init_state)) = None \<and>
   timers (snd (uploadImages first_upload_fails_env
                  [photo ''a.jpg'', photo ''b.jpg''] init_state)) = [] \<and>
   pending (snd (uploadImages first_upload_fails_env
                   [photo ''a.jpg'', photo ''b.jpg''] init_state)) = [100] \<and>
   progress_log (settle_pending (snd (uploadImages first_upload_fails_env
                   [photo ''a.jpg'', photo ''b.jpg''] init_state))) =
     [Some 0, Some 15, Some 30, None, Some 100] \<and>
   progress (settle_pending (snd (uploadImages first_upload_fails_env
               [photo ''a.jpg'', photo ''b.jpg''] init_state))) = Some 100 \<and>
   fst (uploadImages first_decode_fails_env [photo ''a.jpg'', photo ''b.jpg''] init_state) = [] \<and>
   failure_log (snd (uploadImages first_decode_fails_env
                       [photo ''a.jpg'', photo ''b.jpg''] init_state)) =
     [''Failed to load image''] \<and>
   progress (snd (uploadImages first_decode_fails_env
                    [photo ''a.jpg'', photo ''b.jpg''] init_state)) = None \<and>
   timers (snd (uploadImages first_decode_fails_env
                  [photo ''a.jpg'', photo ''b.jpg''] init_state)) = [] \<and>
   progress_log (settle_pending (snd (uploadImages first_decode_fails_env
                   [photo ''a.jpg'', photo ''b.jpg''] init_state))) =
     [Some 0, None, Some 30] \<and>
   progress (settle_pending (snd (uploadImages first_decode_fails_env
               [photo ''a.jpg'', photo ''b.jpg''] init_state))) = Some 30"
  by (simp add: uploadImages_def try_block_def collect_responses_def andThen_def
        validate_photos stage_previews_fulfilled stage_strip_fulfilled
        first_upload_fails_outcomes stage_upload_first_fails
        first_decode_fails_outcomes stage_strip_first_fails
        catch_block_def setter_defs run_callback_def round_ratio_values_Suc
        settle_pending_def init_state_def)

text \<open>
  C8. A file of an accepted type that the sanitizer re-encodes successfully comes out
  with the same declared type (and the same name).
\<close>

theorem sanitizer_keeps_type:
  assumes "js_includes ALLOWED_TYPES (ftype imageFile)"
    and "stripImageMetadata w imageFile = Inr stripped"
  shows "ftype stripped = ftype imageFile \<and> fname stripped = fname imageFile"
  using assms normalize_allowed [OF assms(1)]
  by (auto simp: stripImageMetadata_def new_File_def split: option.splits if_splits)

theorem sanitizer_keeps_type_witness:
  "js_includes ALLOWED_TYPES (ftype (photo ''a.jpg'')) \<and>
   stripImageMetadata decoding_browser (photo ''a.jpg'') =
     Inr \<lparr>fname = ''a.jpg'', ftype = ''image/jpeg'', fsize = 4, fbytes = ''JFIF'',
          lastModified = 7\<rparr> \<and>
   ftype \<lparr>fname = ''a.jpg'', ftype = ''image/jpeg'', fsize = 4, fbytes = ''JFIF'',
          lastModified = 7\<rparr> = ftype (photo ''a.jpg'')"
proof -
  have a: "js_includes ALLOWED_TYPES (ftype (photo ''a.jpg''))"
    by (simp add: js_includes_def ALLOWED_TYPES_def)
  show ?thesis
    using sanitizer_keeps_type [OF a strip_photo [of "''a.jpg''"]] a strip_photo [of "''a.jpg''"]
    by simp
qed

text \<open>
  C9. Every call of the upload collaborator is made with the one built-in default
  endpoint when no server list is configured or the configured list is empty, and with
  the configured list unchanged otherwise. Every call a run records has these servers;
  starting the uploads calls the collaborator once for each sanitized file, in order,
  with the file, the signer and these servers, and what the items await are the
  collaborator's answers to exactly these calls; a run of a logged-in caller that gets
  past the sanitize stage has recorded one such call for each sanitized file, and when
  no upload rejects the responses it collects are the collaborator's answers for these
  servers.
\<close>

theorem upload_calls_use_fallback_endpoint:
  "(\<forall>(imageFile, sg, servers) \<in> set (upload_calls (snd (uploadImages env fs init_state))).
      servers = spec_endpoints (blossomServers env)) \<and>
   start_all (upload_item env) 0 stripped s =
     (map (\<lambda>(idx, imageFile).
             blossomUploadImages env idx imageFile (signer env)
               (spec_endpoints (blossomServers env)))
        (enumerate 0 stripped),
      s\<lparr>upload_calls := upload_calls s @
            map (\<lambda>imageFile. (imageFile, signer env, spec_endpoints (blossomServers env)))
              stripped\<rparr>) \<and>
   (validate fs = Inr () \<and>
    first_rejection (preview_outcomes env fs) (preview_order env) = None \<and>
    first_rejection (strip_outcomes env fs) (strip_order env) = None \<and>
    isLoggedIn env \<longrightarrow>
      upload_calls (snd (uploadImages env fs s)) =
        upload_calls s @
        map (\<lambda>imageFile. (imageFile, signer env, spec_endpoints (blossomServers env)))
          (fulfilled (strip_outcomes env fs)) \<and>
      (first_rejection (upload_outcomes env (fulfilled (strip_outcomes env fs)))
         (upload_order env) = None \<longrightarrow>
       fst (collect_responses env fs s) =
         Inr (fulfilled
                (map (\<lambda>(idx, imageFile).
                        blossomUploadImages env idx imageFile (signer env)
                          (spec_endpoints (blossomServers env)))
                   (enumerate 0 (fulfilled (strip_outcomes env fs)))))))"
proof (intro conjI impI; (elim conjE)?)
  show "\<forall>(imageFile, sg, servers) \<in> set (upload_calls (snd (uploadImages env fs init_state))).
      servers = spec_endpoints (blossomServers env)"
    using uploadImages_upload_calls [of env fs init_state]
    by (auto simp: init_state_def endpoints_spec)
next
  show "start_all (upload_item env) 0 stripped s =
     (map (\<lambda>(idx, imageFile).
             blossomUploadImages env idx imageFile (signer env)
               (spec_endpoints (blossomServers env)))
        (enumerate 0 stripped),
      s\<lparr>upload_calls := upload_calls s @
            map (\<lambda>imageFile. (imageFile, signer env, spec_endpoints (blossomServers env)))
              stripped\<rparr>)"
    by (simp add: start_all_upload endpoints_spec)
next
  assume a: "validate fs = Inr ()"
    "first_rejection (preview_outcomes env fs) (preview_order env) = None"
    "first_rejection (strip_outcomes env fs) (strip_order env) = None"
    "isLoggedIn env"
  show "upload_calls (snd (uploadImages env fs s)) =
        upload_calls s @
        map (\<lambda>imageFile. (imageFile, signer env, spec_endpoints (blossomServers env)))
          (fulfilled (strip_outcomes env fs))"
    using uploadImages_calls_when_reached [OF a, of s] by (simp add: endpoints_spec)
next
  assume a: "validate fs = Inr ()"
    "first_rejection (preview_outcomes env fs) (preview_order env) = None"
    "first_rejection (strip_outcomes env fs) (strip_order env) = None"
    "isLoggedIn env"
    "first_rejection (upload_outcomes env (fulfilled (strip_outcomes env fs)))
         (upload_order env) = None"
  show "fst (collect_responses env fs s) =
         Inr (fulfilled
                (map (\<lambda>(idx, imageFile).
                        blossomUploadImages env idx imageFile (signer env)
                          (spec_endpoints (blossomServers env)))
                   (enumerate 0 (fulfilled (strip_outcomes env fs)))))"
    using collect_responses_fulfilled(1) [OF a, of s]
    by (simp add: upload_outcomes_map endpoints_spec)
qed

theorem upload_calls_use_fallback_endpoint_witness:
  "fst (uploadImages (echo_env None) [photo ''a.jpg''] init_state) =
     [JStr ''https://cdn.nostrcheck.me|a.jpg''] \<and>
   map (\<lambda>(imageFile, sg, servers). servers)
     (upload_calls (snd (uploadImages (echo_env None) [photo ''a.jpg''] init_state))) =
     [[''https://cdn.nostrcheck.me'']] \<and>
   fst (uploadImages (echo_env (Some [])) [photo ''a.jpg''] init_state) =
     [JStr ''https://cdn.nostrcheck.me|a.jpg''] \<and>
   map (\<lambda>(imageFile, sg, servers). servers)
     (upload_calls (snd (uploadImages (echo_env (Some [])) [photo ''a.jpg''] init_state))) =
     [[''https://cdn.nostrcheck.me'']] \<and>
   fst (uploadImages (echo_env (Some [''https://blossom.band'', ''https://nostr.download'']))
          [photo ''a.jpg''] init_state) =
     [JStr ''https://blossom.band|https://nostr.download|a.jpg''] \<and>
   map (\<lambda>(imageFile, sg, servers). servers)
     (upload_calls
        (snd (uploadImages (echo_env (Some [''https://blossom.band'', ''https://nostr.download'']))
                [photo ''a.jpg''] init_state))) =
     [[''https://blossom.band'', ''https://nostr.download'']]"
proof -
  have run: "fst (uploadImages (echo_env c) [photo ''a.jpg''] init_state) =
               [JStr (concat (map (\<lambda>e. e @ ''|'') (spec_endpoints c)) @ ''a.jpg'')] \<and>
             map (\<lambda>(imageFile, sg, servers). servers)
               (upload_calls (snd (uploadImages (echo_env c) [photo ''a.jpg''] init_state))) =
               [spec_endpoints c]" for c
  proof -
    let ?env = "echo_env c"
    let ?fs = "[photo ''a.jpg'']"
    have h: "validate ?fs = Inr ()"
      "first_rejection (preview_outcomes ?env ?fs) (preview_order ?env) = None"
      "first_rejection (strip_outcomes ?env ?fs) (strip_order ?env) = None"
      "isLoggedIn ?env"
      "first_rejection (upload_outcomes ?env (fulfilled (strip_outcomes ?env ?fs)))
         (upload_order ?env) = None"
      by (simp_all add: validate_photos echo_outcomes upload_outcomes_map enumerate_eq_zip upt_rec)
    note t = upload_calls_use_fallback_endpoint [of ?env ?fs "[]" init_state]
    from t h have calls: "upload_calls (snd (uploadImages ?env ?fs init_state)) =
        upload_calls init_state @
        map (\<lambda>imageFile. (imageFile, signer ?env, spec_endpoints (blossomServers ?env)))
          (fulfilled (strip_outcomes ?env ?fs))"
      by blast
    from t h have "fst (collect_responses ?env ?fs init_state) =
         Inr (fulfilled
                (map (\<lambda>(idx, imageFile).
                        blossomUploadImages ?env idx imageFile (signer ?env)
                          (spec_endpoints (blossomServers ?env)))
                   (enumerate 0 (fulfilled (strip_outcomes ?env ?fs)))))"
      by blast
    then have r: "fst (collect_responses ?env ?fs init_state) =
         Inr [url_response (concat (map (\<lambda>e. e @ ''|'') (spec_endpoints c)) @ ''a.jpg'')]"
      by (simp add: echo_outcomes enumerate_eq_zip upt_rec)
    then have "collect_responses ?env ?fs init_state =
         (Inr [url_response (concat (map (\<lambda>e. e @ ''|'') (spec_endpoints c)) @ ''a.jpg'')],
          snd (collect_responses ?env ?fs init_state))"
      by (metis prod.collapse)
    note u = uploadImages_of_collect [OF this]
    have f: "fst (uploadImages ?env ?fs init_state) =
               [JStr (concat (map (\<lambda>e. e @ ''|'') (spec_endpoints c)) @ ''a.jpg'')]"
      unfolding u by (simp add: List.map_filter_simps code_resolver_url_response)
    have "upload_calls init_state = []"
      by (simp add: init_state_def)
    with calls f show ?thesis
      by (simp add: echo_outcomes)
  qed
  show ?thesis
    using run [of None] run [of "Some []"]
          run [of "Some [''https://blossom.band'', ''https://nostr.download'']"]
    by (simp add: spec_endpoints_def)
qed

text \<open>
  C10. A response whose url tag carries the empty string resolves to the empty string;
  the run that receives it returns that one url and sets no failure text, and
  \<^verbatim>\<open>handleChange\<close> calls the caller's callback with the empty string, the value
  that \<^verbatim>\<open>removePreview\<close> and \<^verbatim>\<open>clearAll\<close> pass to signal removal.
\<close>

theorem empty_url_reaches_callback:
  "imageUrls [JArr [JArr [JStr ''url'', JStr []]]] = Inr [JStr []] \<and>
   fst (uploadImages empty_url_env [photo ''a.jpg''] init_state) = [JStr []] \<and>
   failure_log (snd (uploadImages empty_url_env [photo ''a.jpg''] init_state)) = [] \<and>
   callback_log (handleChange empty_url_env (Some [photo ''a.jpg'']) init_state) = [JStr []] \<and>
   callback_log (removePreview 0 init_state) = [JStr []] \<and>
   callback_log (clearAll init_state) = [JStr []]"
proof -
  have r: "code_resolver (JArr [JArr [JStr ''url'', JStr []]]) = Some (JStr [])"
    by simp
  have i: "imageUrls [JArr [JArr [JStr ''url'', JStr []]]] = Inr [JStr []]"
    by (simp add: imageUrls_total List.map_filter_simps)
  have run: "fst (uploadImages empty_url_env [photo ''a.jpg''] s) = [JStr []] \<and>
             failure_log (snd (uploadImages empty_url_env [photo ''a.jpg''] s)) = failure_log s \<and>
             callback_log (snd (uploadImages empty_url_env [photo ''a.jpg''] s)) = callback_log s"
    for s
  proof -
    let ?c = "collect_responses empty_url_env [photo ''a.jpg''] s"
    have "fst ?c = Inr [JArr [JArr [JStr ''url'', JStr []]]]"
      by (subst collect_responses_fulfilled(1))
         (simp_all add: validate_photos empty_url_outcomes)
    then have "?c = (Inr [JArr [JArr [JStr ''url'', JStr []]]], snd ?c)"
      by (metis prod.collapse)
    note u = uploadImages_of_collect [OF this]
    have "failure_log (snd ?c) = failure_log s"
      by (subst collect_responses_fulfilled(4))
         (simp_all add: validate_photos empty_url_outcomes)
    moreover have "callback_log (snd ?c) = callback_log s"
      by (subst collect_responses_fulfilled(6))
         (simp_all add: validate_photos empty_url_outcomes)
    ultimately show ?thesis
      by (simp add: u List.map_filter_simps setter_defs del: code_resolver.simps add: r)
  qed
  have h: "callback_log (handleChange empty_url_env (Some [photo ''a.jpg'']) init_state) = [JStr []]"
    using run [of "setLoading True init_state"]
    by (simp add: handleChange_def Let_def split: prod.splits)
       (auto simp: setter_defs init_state_def)
  have c: "callback_log (removePreview 0 init_state) = [JStr []]"
    "callback_log (clearAll init_state) = [JStr []]"
    by (simp_all add: removePreview_def clearAll_def setter_defs init_state_def)
  from i run [of init_state] h c show ?thesis
    by (simp add: init_state_def)
qed

end
